theory Spec2Isabelle
  imports Complex_Main "HOL-Library.Multiset" "HOL-Library.AList"
begin

section \<open>Step 2: the checkpoint-conversion cell\<close>

text \<open>
  The cell of \<^verbatim>\<open>step-2-download-model.ipynb\<close> that shells out to the converter.
  What the cell can observe of the subprocess is the \<^verbatim>\<open>CompletedProcess\<close> it gets
  back: the exit status and the captured output (stderr is merged into stdout).
  The machine the notebook runs on is a table of text files together with the
  lines printed so far.
\<close>

record completed_process =
  returncode :: int
  stdout :: string

record host =
  files :: "string \<rightharpoonup> string"
  printed :: "string list"

definition print :: "string \<Rightarrow> host \<Rightarrow> host" where
  "print s h = h\<lparr>printed := printed h @ [s]\<rparr>"

definition log_filename :: string where
  "log_filename = ''model_conversion.log''"

text \<open>
  \<^verbatim>\<open>os.path.abspath\<close> of a plain file name, in working directory \<open>cwd\<close>: the two are
  joined by a separator, which is not doubled when \<open>cwd\<close> already ends in one (the
  root directory).
\<close>

definition abspath :: "string \<Rightarrow> string \<Rightarrow> string" where
  "abspath cwd p = (if cwd \<noteq> [] \<and> last cwd = CHR ''/'' then cwd @ p else cwd @ ''/'' @ p)"

definition hashes :: string where
  "hashes = replicate 80 (CHR ''#'')"

text \<open>
  \<^verbatim>\<open>
  if os.path.exists(log_filename):
      os.remove(log_filename)
  print("Model conversion started. This will take some time...")
  process = subprocess.run(command, shell=True, stdout=PIPE, stderr=STDOUT, text=True)
  if process.returncode == 0:
      print("Model conversion completed successfully!")
  else:
      with open(log_filename, "w") as f:
          f.write(process.stdout)
      print(f"Model conversion failed!")
      print(f"{'#'*80}\nLogs:\n{'#'*80}")
      print(process.stdout)
      print(f"{'#'*80}\n")
      print(f"Logs also saved to '{os.path.abspath(log_filename)}'.\nPlease share ...")
  \<close>
  The subprocess is given by the \<^verbatim>\<open>CompletedProcess\<close> it returns; the files it
  writes itself (the converted checkpoint) are not part of this table.
\<close>

definition convert_checkpoint :: "string \<Rightarrow> completed_process \<Rightarrow> host \<Rightarrow> host" where
  "convert_checkpoint cwd process h =
    (let h1 = (if files h log_filename \<noteq> None
               then h\<lparr>files := (files h)(log_filename := None)\<rparr> else h);
         h2 = print ''Model conversion started. This will take some time...'' h1
     in if returncode process = 0
        then print ''Model conversion completed successfully!'' h2
        else
          (let h3 = h2\<lparr>files := (files h2)(log_filename \<mapsto> stdout process)\<rparr>;
               h4 = print ''Model conversion failed!'' h3;
               h5 = print (hashes @ ''\<newline>Logs:\<newline>'' @ hashes) h4;
               h6 = print (stdout process) h5;
               h7 = print (hashes @ ''\<newline>'') h6
           in print (''Logs also saved to '' @ [CHR 0x27] @ abspath cwd log_filename @ [CHR 0x27]
                     @ ''.\<newline>Please share this file with us if you need help debugging the issue.'') h7))"

section \<open>Step 1: data frames\<close>

text \<open>
  The curation notebook works on pandas data frames. A frame is modelled the way
  the notebook uses it: a list of row labels and a list of named columns, each
  column holding one cell per row. A cell holds a string or a number; missing
  values are not part of the model (every field of a record of the data model
  carries a value).
\<close>

datatype error = AssertionError string | KeyError string | TypeError | ValueError

datatype cell = Str string | Num int

record dataframe =
  idx :: "nat list"
  cols :: "(string \<times> cell list) list"

definition len_df :: "dataframe \<Rightarrow> nat" where
  "len_df df = length (idx df)"

definition columns :: "dataframe \<Rightarrow> string list" where
  "columns df = map fst (cols df)"

text \<open>Every column has one cell per row, and no column name occurs twice.\<close>

definition wf_df :: "dataframe \<Rightarrow> bool" where
  "wf_df df \<longleftrightarrow> distinct (columns df) \<and> list_all (\<lambda>(c, xs). length xs = len_df df) (cols df)"

text \<open>\<^verbatim>\<open>df[c]\<close>: the column, or KeyError.\<close>

definition getitem :: "dataframe \<Rightarrow> string \<Rightarrow> error + cell list" where
  "getitem df c = (case map_of (cols df) c of None \<Rightarrow> Inl (KeyError c) | Some xs \<Rightarrow> Inr xs)"

text \<open>\<^verbatim>\<open>df[c] = series\<close>: replaces the column in place, or appends it as the last one.\<close>

definition setitem :: "string \<Rightarrow> cell list \<Rightarrow> dataframe \<Rightarrow> dataframe" where
  "setitem c xs df = df\<lparr>cols := AList.update c xs (cols df)\<rparr>"

text \<open>\<^verbatim>\<open>df[c] = scalar\<close>: the scalar in every row.\<close>

definition setitem_scalar :: "string \<Rightarrow> cell \<Rightarrow> dataframe \<Rightarrow> dataframe" where
  "setitem_scalar c v df = setitem c (replicate (len_df df) v) df"

text \<open>\<^verbatim>\<open>df.drop(columns=cs)\<close>: KeyError when a name is not a column.\<close>

definition drop_columns :: "string list \<Rightarrow> dataframe \<Rightarrow> error + dataframe" where
  "drop_columns cs df =
     (case filter (\<lambda>c. c \<notin> set (columns df)) cs of
        c # _ \<Rightarrow> Inl (KeyError c)
      | [] \<Rightarrow> Inr (df\<lparr>cols := filter (\<lambda>(k, xs). k \<notin> set cs) (cols df)\<rparr>))"

text \<open>\<^verbatim>\<open>df.iloc[ps]\<close>: the rows at the given positions, in that order.\<close>

definition iloc :: "nat list \<Rightarrow> dataframe \<Rightarrow> dataframe" where
  "iloc ps df = \<lparr>idx = map (\<lambda>i. idx df ! i) ps,
                 cols = map (\<lambda>(c, xs). (c, map (\<lambda>i. xs ! i) ps)) (cols df)\<rparr>"

text \<open>\<^verbatim>\<open>df[mask]\<close>: the rows whose mask entry is true.\<close>

definition mask_rows :: "bool list \<Rightarrow> dataframe \<Rightarrow> dataframe" where
  "mask_rows keep df = iloc (filter (\<lambda>i. keep ! i) [0..<len_df df]) df"

text \<open>
  Modelled from the spec: the dataset constructor of the curation library,
  \<^verbatim>\<open>DocumentDataset.from_pandas(df)\<close>, which is not among the sources. A dataset is an
  ordered collection of records (3); the library builds it with its default
  \<^verbatim>\<open>sort=True\<close>, which puts the rows in the order of their labels. \<open>label_order\<close> lists
  the positions of the frame in that order (rows with the same label keep their order),
  and the dataset holds the rows at these positions.
\<close>

definition label_order :: "dataframe \<Rightarrow> nat list" where
  "label_order df = sort_key (\<lambda>i. idx df ! i) [0..<len_df df]"

definition from_pandas :: "dataframe \<Rightarrow> dataframe" where
  "from_pandas df = iloc (label_order df) df"

text \<open>A record is one row: its label and its fields by name.\<close>

type_synonym record_row = "nat \<times> (string \<times> cell) list"

definition record_at :: "dataframe \<Rightarrow> nat \<Rightarrow> record_row" where
  "record_at df i = (idx df ! i, map (\<lambda>(c, xs). (c, xs ! i)) (cols df))"

definition records :: "dataframe \<Rightarrow> record_row list" where
  "records df = map (record_at df) [0..<len_df df]"

definition field :: "record_row \<Rightarrow> string \<Rightarrow> cell option" where
  "field r c = map_of (snd r) c"

definition field_names :: "record_row \<Rightarrow> string list" where
  "field_names r = map fst (snd r)"

text \<open>The column exists and every cell of it is a string.\<close>

definition text_column :: "dataframe \<Rightarrow> string \<Rightarrow> bool" where
  "text_column df c \<longleftrightarrow>
     (case map_of (cols df) c of
        None \<Rightarrow> False
      | Some xs \<Rightarrow> list_all (\<lambda>x. case x of Str s \<Rightarrow> True | Num n \<Rightarrow> False) xs)"

text \<open>The column exists and every cell of it is a number.\<close>

definition num_column :: "dataframe \<Rightarrow> string \<Rightarrow> bool" where
  "num_column df c \<longleftrightarrow>
     (case map_of (cols df) c of
        None \<Rightarrow> False
      | Some xs \<Rightarrow> list_all (\<lambda>x. case x of Str s \<Rightarrow> False | Num n \<Rightarrow> True) xs)"

text \<open>Applying a function that may raise to every element, left to right.\<close>

fun map_res :: "('a \<Rightarrow> error + 'b) \<Rightarrow> 'a list \<Rightarrow> error + 'b list" where
  "map_res f [] = Inr []"
| "map_res f (x # xs) =
     (case f x of
        Inl e \<Rightarrow> Inl e
      | Inr y \<Rightarrow> (case map_res f xs of Inl e \<Rightarrow> Inl e | Inr ys \<Rightarrow> Inr (y # ys)))"

text \<open>
  \<^verbatim>\<open>+\<close> on cells: string concatenation, addition of numbers, TypeError on a string
  and a number.
\<close>

fun add_cell :: "cell \<Rightarrow> cell \<Rightarrow> error + cell" where
  "add_cell (Str a) (Str b) = Inr (Str (a @ b))"
| "add_cell (Num a) (Num b) = Inr (Num (a + b))"
| "add_cell _ _ = Inl TypeError"

text \<open>\<^verbatim>\<open>"s" + series\<close>, \<^verbatim>\<open>series + "s"\<close> and \<^verbatim>\<open>series + series\<close>, element by element.\<close>

definition radd_str :: "string \<Rightarrow> cell list \<Rightarrow> error + cell list" where
  "radd_str s xs = map_res (\<lambda>x. add_cell (Str s) x) xs"

definition add_str :: "cell list \<Rightarrow> string \<Rightarrow> error + cell list" where
  "add_str xs s = map_res (\<lambda>x. add_cell x (Str s)) xs"

definition add_series :: "cell list \<Rightarrow> cell list \<Rightarrow> error + cell list" where
  "add_series xs ys = map_res (\<lambda>(x, y). add_cell x y) (zip xs ys)"

section \<open>Step 1: the curation pipeline\<close>

text \<open>
  The stages of the pipeline are modules of the curation library; the notebook
  only lists them with their parameters. A stage takes a frame to a frame or raises.
\<close>

type_synonym stage = "dataframe \<Rightarrow> error + dataframe"

text \<open>
  Modelled from the spec: the pipeline sequencer (4.4) of the curation library.
  Stages are applied strictly in order, each on the output of the previous one; the
  failure of a stage aborts the pipeline.
\<close>

fun Sequential :: "stage list \<Rightarrow> stage" where
  "Sequential [] df = Inr df"
| "Sequential (m # ms) df = (case m df of Inl e \<Rightarrow> Inl e | Inr df' \<Rightarrow> Sequential ms df')"

text \<open>
  Modelled from the spec: the text normalizer stage (4.1) of the curation library,
  \<^verbatim>\<open>Modify(modifier, text_field)\<close>. It rewrites the text of one field in every record
  and changes nothing else. The rewriting of one text, \<^verbatim>\<open>UnicodeReformatter\<close>, is the
  parameter \<open>modify_document\<close>.
\<close>

definition Modify :: "(string \<Rightarrow> string) \<Rightarrow> string \<Rightarrow> stage" where
  "Modify modify_document text_field df =
     (case getitem df text_field of
        Inl e \<Rightarrow> Inl e
      | Inr xs \<Rightarrow>
          (case map_res (\<lambda>x. case x of Str s \<Rightarrow> Inr (Str (modify_document s))
                                      | Num n \<Rightarrow> Inl TypeError) xs of
             Inl e \<Rightarrow> Inl e
           | Inr ys \<Rightarrow> Inr (setitem text_field ys df)))"

text \<open>
  A document filter gives each value of the designated field a score and decides
  from the score whether the record is kept.
\<close>

record 's document_filter =
  score_document :: "cell \<Rightarrow> error + 's"
  keep_document :: "'s \<Rightarrow> bool"

text \<open>
  Modelled from the spec: the filter stage (4.2 to 4.4) of the curation library,
  \<^verbatim>\<open>ScoreFilter(filter, text_field)\<close>. It scores the designated field of every record
  and removes the records failing the predicate; the records kept are not changed.
\<close>

definition ScoreFilter :: "'s document_filter \<Rightarrow> string \<Rightarrow> stage" where
  "ScoreFilter flt text_field df =
     (case getitem df text_field of
        Inl e \<Rightarrow> Inl e
      | Inr xs \<Rightarrow>
          (case map_res (score_document flt) xs of
             Inl e \<Rightarrow> Inl e
           | Inr scores \<Rightarrow> Inr (mask_rows (map (keep_document flt) scores) df)))"

text \<open>
  Words are the maximal runs of characters that are not white space (Python's
  \<^verbatim>\<open>str.split()\<close>). Characters are bytes here, so white space is the ASCII white space:
  tab, line feed, vertical tab, form feed, carriage return, the four separators
  0x1C to 0x1F, and the blank.
\<close>

definition is_space :: "char \<Rightarrow> bool" where
  "is_space c \<longleftrightarrow> (let n = (of_char c :: nat) in (9 \<le> n \<and> n \<le> 13) \<or> (28 \<le> n \<and> n \<le> 32))"

fun split_acc :: "string \<Rightarrow> string \<Rightarrow> string list" where
  "split_acc w [] = (if w = [] then [] else [rev w])"
| "split_acc w (c # cs) =
     (if is_space c then (if w = [] then split_acc [] cs else rev w # split_acc [] cs)
      else split_acc (c # w) cs)"

definition split_words :: "string \<Rightarrow> string list" where
  "split_words s = split_acc [] s"

definition word_count :: "string \<Rightarrow> int" where
  "word_count s = int (length (split_words s))"

text \<open>
  Modelled from the spec: the word-count filter (4.2) of the curation library. The
  score is the word count of the text; a record passes if
  \<open>min_words \<le> score \<le> max_words\<close>, both bounds inclusive.
\<close>

definition WordCountFilter :: "int \<Rightarrow> int \<Rightarrow> int document_filter" where
  "WordCountFilter min_words max_words =
     \<lparr>score_document = (\<lambda>x. case x of Str s \<Rightarrow> Inr (word_count s) | Num n \<Rightarrow> Inl TypeError),
      keep_document = (\<lambda>score. min_words \<le> score \<and> score \<le> max_words)\<rparr>"

text \<open>
  Modelled from the spec: the score threshold filter (4.3), \<^verbatim>\<open>FilterLowScores\<close> of
  \<^verbatim>\<open>helpers/filters.py\<close>, which is not among the sources. Given a numeric score field
  it passes the record iff \<open>score \<ge> threshold\<close>; the decision is a boolean and the
  value is not transformed.
\<close>

definition FilterLowScores :: "int \<Rightarrow> bool document_filter" where
  "FilterLowScores score_threshold =
     \<lparr>score_document = (\<lambda>x. case x of Num n \<Rightarrow> Inr (n \<ge> score_threshold) | Str s \<Rightarrow> Inl TypeError),
      keep_document = (\<lambda>score. score)\<rparr>"

text \<open>
  \<^verbatim>\<open>
  def run_curation_pipeline(dataset, device):
      cpu_curation_steps = Sequential([
          Modify(UnicodeReformatter(), text_field="title"),
          Modify(UnicodeReformatter(), text_field="question"),
          ScoreFilter(WordCountFilter(min_words=50, max_words=500), text_field="question", score_type=int),
          ScoreFilter(FilterLowScores(score_threshold=0), text_field="question_score", score_type=bool),
      ])
      dataset = cpu_curation_steps(dataset)
      dataset.df = dataset.df.drop(columns=["answer", "answer_score", "question_score"])
      return dataset
  \<close>
  The two filter stages are named, since properties are stated for each of them.
\<close>

definition word_count_stage :: stage where
  "word_count_stage = ScoreFilter (WordCountFilter 50 500) ''question''"

definition low_score_stage :: stage where
  "low_score_stage = ScoreFilter (FilterLowScores 0) ''question_score''"

definition cpu_curation_steps :: "(string \<Rightarrow> string) \<Rightarrow> stage" where
  "cpu_curation_steps UnicodeReformatter =
     Sequential [Modify UnicodeReformatter ''title'',
                 Modify UnicodeReformatter ''question'',
                 word_count_stage,
                 low_score_stage]"

definition run_curation_pipeline :: "(string \<Rightarrow> string) \<Rightarrow> stage" where
  "run_curation_pipeline UnicodeReformatter dataset =
     (case cpu_curation_steps UnicodeReformatter dataset of
        Inl e \<Rightarrow> Inl e
      | Inr dataset' \<Rightarrow> drop_columns [''answer'', ''answer_score'', ''question_score''] dataset')"

text \<open>
  The two predicates on records that the spec states for the filters (4.2, 4.3, 8):
  the word count of \<open>question\<close> lies in the inclusive range from 50 to 500, and
  \<open>question_score\<close> is at least 0.
\<close>

definition within_word_bounds :: "record_row \<Rightarrow> bool" where
  "within_word_bounds r \<longleftrightarrow>
     (case field r ''question'' of
        Some (Str q) \<Rightarrow> 50 \<le> word_count q \<and> word_count q \<le> 500
      | _ \<Rightarrow> False)"

definition score_non_negative :: "record_row \<Rightarrow> bool" where
  "score_non_negative r \<longleftrightarrow>
     (case field r ''question_score'' of
        Some (Num n) \<Rightarrow> n \<ge> 0
      | _ \<Rightarrow> False)"

section \<open>Step 1: formatting\<close>

definition SYSTEM_PROMPT :: string where
  "SYSTEM_PROMPT = ''Read the following title and question about a legal issue and assign the most appropriate tag to it. All tags must be in lowercase, ordered lexicographically and separated by commas.\<newline>\<newline>''"

text \<open>
  \<^verbatim>\<open>
  def format_dataset(dataset, filename):
      df = dataset.df.compute()
      has_tags = "tags" in df.columns
      df["input"] = SYSTEM_PROMPT + "TITLE:\n" + df["title"] + "\n\n" + "QUESTION:\n" + df["question"]
      df["output"] = df["tags"] if has_tags else ""
      df["filename"] = filename
      df = df.drop(columns=["title", "question"])
      if has_tags:
          df = df.drop(columns=["tags"])
      return DocumentDataset.from_pandas(df)
  \<close>
  The sum is evaluated from the left, as Python does.
\<close>

definition format_dataset :: "dataframe \<Rightarrow> string \<Rightarrow> error + dataframe" where
  "format_dataset df filename =
    (let has_tags = ''tags'' \<in> set (columns df) in
     case getitem df ''title'' of Inl e \<Rightarrow> Inl e | Inr title \<Rightarrow>
     case radd_str (SYSTEM_PROMPT @ ''TITLE:\<newline>'') title of Inl e \<Rightarrow> Inl e | Inr s1 \<Rightarrow>
     case add_str s1 ''\<newline>\<newline>'' of Inl e \<Rightarrow> Inl e | Inr s2 \<Rightarrow>
     case add_str s2 ''QUESTION:\<newline>'' of Inl e \<Rightarrow> Inl e | Inr s3 \<Rightarrow>
     case getitem df ''question'' of Inl e \<Rightarrow> Inl e | Inr question \<Rightarrow>
     case add_series s3 question of Inl e \<Rightarrow> Inl e | Inr input \<Rightarrow>
     let df1 = setitem ''input'' input df in
     case (if has_tags then getitem df1 ''tags''
           else Inr (replicate (len_df df1) (Str ''''))) of Inl e \<Rightarrow> Inl e | Inr output \<Rightarrow>
     let df2 = setitem ''output'' output df1;
         df3 = setitem_scalar ''filename'' (Str filename) df2 in
     case drop_columns [''title'', ''question''] df3 of Inl e \<Rightarrow> Inl e | Inr df4 \<Rightarrow>
     case (if has_tags then drop_columns [''tags''] df4 else Inr df4) of Inl e \<Rightarrow> Inl e | Inr df5 \<Rightarrow>
     Inr (from_pandas df5))"

text \<open>
  The value of \<open>input\<close> for one title and one question, and the columns of the frame
  once \<open>input\<close>, \<open>output\<close> and \<open>filename\<close> have been assigned: the two expressions of
  \<open>format_dataset\<close>, named for the statements below.
\<close>

definition formatted_input :: "string \<Rightarrow> string \<Rightarrow> cell" where
  "formatted_input t q = Str (SYSTEM_PROMPT @ ''TITLE:\<newline>'' @ t @ ''\<newline>\<newline>QUESTION:\<newline>'' @ q)"

definition formatted_cols ::
  "dataframe \<Rightarrow> string \<Rightarrow> cell list \<Rightarrow> cell list \<Rightarrow> (string \<times> cell list) list" where
  "formatted_cols df fn inp outp =
     AList.update ''filename'' (replicate (len_df df) (Str fn))
       (AList.update ''output'' outp (AList.update ''input'' inp (cols df)))"

section \<open>Step 1: writing and splitting\<close>

text \<open>
  What the notebook leaves on disk: the directories it made and the line-delimited
  JSON files, each holding the frame that was written to it.
\<close>

record disk =
  dirs :: "string set"
  jsonl :: "string \<rightharpoonup> dataframe"

text \<open>\<^verbatim>\<open>os.makedirs(path, exist_ok=True)\<close>\<close>

definition makedirs :: "string \<Rightarrow> disk \<Rightarrow> disk" where
  "makedirs path d = d\<lparr>dirs := insert path (dirs d)\<rparr>"

definition cell_str :: "cell \<Rightarrow> error + string" where
  "cell_str x = (case x of Str s \<Rightarrow> Inr s | Num n \<Rightarrow> Inl TypeError)"

text \<open>
  Modelled from the spec: the writer of the curation library,
  \<^verbatim>\<open>dataset.to_json(output_dir, write_to_filename=True)\<close>. Every record is persisted, as
  it is, in the file of \<open>output_dir\<close> that its \<open>filename\<close> field names (4.6, 6).
\<close>

definition to_json :: "dataframe \<Rightarrow> string \<Rightarrow> disk \<Rightarrow> (error + unit) \<times> disk" where
  "to_json df output_dir d =
     (case getitem df ''filename'' of
        Inl e \<Rightarrow> (Inl e, d)
      | Inr fns \<Rightarrow>
          (case map_res cell_str (remdups fns) of
             Inl e \<Rightarrow> (Inl e, d)
           | Inr names \<Rightarrow>
               (Inr (),
                foldl (\<lambda>d' f. d'\<lparr>jsonl := (jsonl d')(output_dir @ ''/'' @ f \<mapsto>
                                   mask_rows (map (\<lambda>x. x = Str f) fns) df)\<rparr>) d names)))"

text \<open>\<^verbatim>\<open>int(x)\<close> on a float: truncation towards zero.\<close>

definition py_int :: "rat \<Rightarrow> int" where
  "py_int x = (if 0 \<le> x then \<lfloor>x\<rfloor> else \<lceil>x\<rceil>)"

text \<open>
  \<^verbatim>\<open>val_size = int(len(df) * VAL_RATIO)\<close>. A float is the rational it denotes; the
  product of two floats is the exact product rounded to a float, and \<open>fl\<close> is
  that rounding. Where the exact product is itself a float, \<open>fl\<close> leaves it as it is.
\<close>

definition val_size :: "(rat \<Rightarrow> rat) \<Rightarrow> nat \<Rightarrow> rat \<Rightarrow> int" where
  "val_size fl n VAL_RATIO = py_int (fl (of_nat n * VAL_RATIO))"

text \<open>
  Modelled from the spec: the splitter (4.6), \<^verbatim>\<open>train_test_split(df, test_size=k,
  random_state=42)\<close> of scikit-learn with an integer \<open>k\<close>. It partitions the rows into a
  complementary pair whose second part has \<open>k\<close> rows; the assignment is a shuffle
  fixed by the seed, given here as the permutation \<open>perm\<close> of the row positions that
  the seed yields. The library slices the permutation (the first \<open>k\<close> positions are
  the second part) and raises ValueError unless \<open>0 < k < len(df)\<close>.
\<close>

definition train_test_split :: "nat list \<Rightarrow> dataframe \<Rightarrow> int \<Rightarrow> error + dataframe \<times> dataframe" where
  "train_test_split perm df test_size =
     (let n_samples = int (len_df df) in
      if test_size \<ge> n_samples \<or> test_size \<le> 0 then Inl ValueError
      else
        (let n_test = nat test_size; n_train = len_df df - n_test
         in Inr (iloc (take n_train (drop n_test perm)) df, iloc (take n_test perm) df)))"

text \<open>
  \<^verbatim>\<open>
  df = formatted_dataset.df.compute()
  assert len(df) > 0, "The dataset is empty."
  assert VAL_RATIO >= 0 and VAL_RATIO <= 1, "VAL_RATIO must be between 0 and 1."
  val_size = int(len(df) * VAL_RATIO)
  output_dir = f"{DATA_DIR}/split"
  os.makedirs(output_dir, exist_ok=True)
  train_df, val_df = train_test_split(df, test_size=val_size, random_state=42)
  train_df["filename"] = "train.jsonl"
  val_df["filename"] = "val.jsonl"
  DocumentDataset.from_pandas(train_df).to_json(output_dir, write_to_filename=True)
  DocumentDataset.from_pandas(val_df).to_json(output_dir, write_to_filename=True)
  \<close>
  The two partitions, before they are tagged, are \<open>split_frames\<close>.
\<close>

definition split_frames ::
  "(rat \<Rightarrow> rat) \<Rightarrow> nat list \<Rightarrow> dataframe \<Rightarrow> rat \<Rightarrow> error + dataframe \<times> dataframe" where
  "split_frames fl perm df VAL_RATIO = train_test_split perm df (val_size fl (len_df df) VAL_RATIO)"

definition split_dataset ::
  "(rat \<Rightarrow> rat) \<Rightarrow> nat list \<Rightarrow> string \<Rightarrow> dataframe \<Rightarrow> rat \<Rightarrow> disk \<Rightarrow> (error + unit) \<times> disk" where
  "split_dataset fl perm DATA_DIR df VAL_RATIO d =
     (if \<not> len_df df > 0 then (Inl (AssertionError ''The dataset is empty.''), d)
      else if \<not> (VAL_RATIO \<ge> 0 \<and> VAL_RATIO \<le> 1)
      then (Inl (AssertionError ''VAL_RATIO must be between 0 and 1.''), d)
      else
        (let output_dir = DATA_DIR @ ''/split'';
             d1 = makedirs output_dir d
         in case split_frames fl perm df VAL_RATIO of
              Inl e \<Rightarrow> (Inl e, d1)
            | Inr (train_df, val_df) \<Rightarrow>
                (let train_df' = setitem_scalar ''filename'' (Str ''train.jsonl'') train_df;
                     val_df' = setitem_scalar ''filename'' (Str ''val.jsonl'') val_df
                 in case to_json (from_pandas train_df') output_dir d1 of
                      (Inl e, d2) \<Rightarrow> (Inl e, d2)
                    | (Inr u, d2) \<Rightarrow> to_json (from_pandas val_df') output_dir d2)))"

text \<open>
  \<^verbatim>\<open>
  submission_ds = "data/submission/evaluation-dataset-verified-for-participants.jsonl"
  assert os.path.exists(submission_ds), f"The submission dataset does not exist at ..."
  submission_ds = DocumentDataset.read_json(submission_ds)
  submission_ds = format_dataset(submission_ds, "submission.jsonl")
  submission_ds.to_json(output_dir, write_to_filename=True)
  \<close>
\<close>

definition submission_ds :: string where
  "submission_ds = ''data/submission/evaluation-dataset-verified-for-participants.jsonl''"

definition prepare_submission :: "string \<Rightarrow> disk \<Rightarrow> (error + unit) \<times> disk" where
  "prepare_submission DATA_DIR d =
     (case jsonl d submission_ds of
        None \<Rightarrow> (Inl (AssertionError (''The submission dataset does not exist at ''
                        @ [CHR 0x27] @ submission_ds @ [CHR 0x27])), d)
      | Some ds \<Rightarrow>
          (case format_dataset ds ''submission.jsonl'' of
             Inl e \<Rightarrow> (Inl e, d)
           | Inr ds' \<Rightarrow> to_json ds' (DATA_DIR @ ''/split'') d))"

text \<open>
  The cells of the curation notebook, run in order on the frame \<open>dataset_df\<close> that the
  document builder delivers (\<^verbatim>\<open>raw_dataset = DocumentDataset.from_pandas(dataset_df)\<close>);
  an exception stops the run. What the cells print is left out: no statement below is
  about it.
\<close>

definition curation_notebook ::
  "(string \<Rightarrow> string) \<Rightarrow> (rat \<Rightarrow> rat) \<Rightarrow> nat list \<Rightarrow> string \<Rightarrow> dataframe \<Rightarrow> rat \<Rightarrow> disk
     \<Rightarrow> (error + unit) \<times> disk" where
  "curation_notebook UnicodeReformatter fl perm DATA_DIR dataset_df VAL_RATIO d =
     (let d0 = makedirs DATA_DIR d;
          raw_dataset = from_pandas dataset_df in
      case run_curation_pipeline UnicodeReformatter raw_dataset of
        Inl e \<Rightarrow> (Inl e, d0)
      | Inr curated_dataset \<Rightarrow>
          (case format_dataset curated_dataset ''law-stackexchange-curated.jsonl'' of
             Inl e \<Rightarrow> (Inl e, d0)
           | Inr formatted_dataset \<Rightarrow>
               (case to_json formatted_dataset (DATA_DIR @ ''/curated_dataset'') d0 of
                  (Inl e, d1) \<Rightarrow> (Inl e, d1)
                | (Inr u, d1) \<Rightarrow>
                    (case split_dataset fl perm DATA_DIR formatted_dataset VAL_RATIO d1 of
                       (Inl e, d2) \<Rightarrow> (Inl e, d2)
                     | (Inr u, d2) \<Rightarrow> prepare_submission DATA_DIR d2))))"

section \<open>Example data\<close>

text \<open>
  A text of \<open>n\<close> words, and a raw dataset of four records with the six fields of
  the data model: the three records of the end-to-end example of the spec (520 words;
  120 words with score \<open>-1\<close>; 200 words with score 2) and one more survivor.
\<close>

definition text_of_words :: "nat \<Rightarrow> string" where
  "text_of_words n = concat (replicate n ''w '')"

definition example_df :: dataframe where
  "example_df =
     \<lparr>idx = [0, 1, 2, 3],
      cols =
        [(''title'', [Str ''Contract dispute'', Str ''Lease issue'', Str ''Tenant rights'',
                      Str ''Notice period'']),
         (''question'', [Str (text_of_words 520), Str (text_of_words 120),
                         Str (text_of_words 200), Str (text_of_words 60)]),
         (''answer'', [Str ''a0'', Str ''a1'', Str ''a2'', Str ''a3'']),
         (''tags'', [Str ''contracts'', Str ''leases'', Str ''contracts,leases'', Str ''employment'']),
         (''question_score'', [Num 3, Num (- 1), Num 2, Num 0]),
         (''answer_score'', [Num 5, Num 4, Num 1, Num 0])]\<rparr>"

text \<open>A submission dataset: title and question, no tags.\<close>

definition example_submission :: dataframe where
  "example_submission =
     \<lparr>idx = [0],
      cols = [(''title'', [Str ''Tenant rights'']),
              (''question'', [Str ''May a landlord enter without notice?''])]\<rparr>"

text \<open>A dataset whose rows are not in the order of their labels.\<close>

definition unordered_df :: dataframe where
  "unordered_df =
     \<lparr>idx = [2, 0, 1],
      cols = [(''title'', [Str ''a'', Str ''b'', Str ''c'']),
              (''question'', [Str ''qa'', Str ''qb'', Str ''qc'']),
              (''tags'', [Str ''ta'', Str ''tb'', Str ''tc''])]\<rparr>"

text \<open>A formatted dataset of seven records, and one without records.\<close>

definition seven_df :: dataframe where
  "seven_df =
     \<lparr>idx = [0, 1, 2, 3, 4, 5, 6],
      cols = [(''input'', [Str ''i0'', Str ''i1'', Str ''i2'', Str ''i3'', Str ''i4'', Str ''i5'',
                          Str ''i6'']),
              (''output'', [Str ''o0'', Str ''o1'', Str ''o2'', Str ''o3'', Str ''o4'', Str ''o5'',
                           Str ''o6'']),
              (''filename'', replicate 7 (Str ''law-stackexchange-curated.jsonl''))]\<rparr>"

definition empty_df :: dataframe where
  "empty_df = \<lparr>idx = [], cols = [(''input'', []), (''output'', []), (''filename'', [])]\<rparr>"

definition example_disk :: disk where
  "example_disk = \<lparr>dirs = {}, jsonl = [submission_ds \<mapsto> example_submission]\<rparr>"

section \<open>Properties of the conversion cell\<close>

lemma convert_checkpoint_ok:
  "returncode p = 0 \<Longrightarrow>
     files (convert_checkpoint cwd p h) = (files h)(log_filename := None) \<and>
     printed (convert_checkpoint cwd p h) =
       printed h @ [''Model conversion started. This will take some time...'',
                    ''Model conversion completed successfully!'']"
  by (auto simp: convert_checkpoint_def print_def Let_def)

lemma convert_checkpoint_failed:
  "returncode p \<noteq> 0 \<Longrightarrow>
     files (convert_checkpoint cwd p h) = (files h)(log_filename \<mapsto> stdout p) \<and>
     take 3 (drop (length (printed h)) (printed (convert_checkpoint cwd p h))) =
       [''Model conversion started. This will take some time...'',
        ''Model conversion failed!'', hashes @ ''\<newline>Logs:\<newline>'' @ hashes] \<and>
     printed (convert_checkpoint cwd p h) ! (length (printed h) + 3) = stdout p"
  by (auto simp: convert_checkpoint_def print_def Let_def nth_append)

text \<open>
  C7. The conversion cell learns of a failure from the exit status of the subprocess
  alone. After the cell, the log file \<^verbatim>\<open>model_conversion.log\<close> exists exactly when
  the exit status was non-zero, and then it holds the captured output and the cell
  has printed "Model conversion failed!" followed by the captured output. On a zero
  status the cell prints "Model conversion completed successfully!", there is no log
  file, and every other file of the table is as it was.
\<close>

theorem C7_conversion_failure_logged:
  "(files (convert_checkpoint cwd p h) log_filename \<noteq> None \<longleftrightarrow> returncode p \<noteq> 0) \<and>
   (returncode p \<noteq> 0 \<longrightarrow>
      files (convert_checkpoint cwd p h) log_filename = Some (stdout p) \<and>
      take 4 (drop (Suc (length (printed h))) (printed (convert_checkpoint cwd p h))) =
        [''Model conversion failed!'', hashes @ ''\<newline>Logs:\<newline>'' @ hashes,
         stdout p, hashes @ ''\<newline>'']) \<and>
   (returncode p = 0 \<longrightarrow>
      files (convert_checkpoint cwd p h) log_filename = None \<and>
      (\<forall>f. f \<noteq> log_filename \<longrightarrow> files (convert_checkpoint cwd p h) f = files h f) \<and>
      drop (length (printed h)) (printed (convert_checkpoint cwd p h)) =
        [''Model conversion started. This will take some time...'',
         ''Model conversion completed successfully!''])"
proof (cases "returncode p = 0")
  case True
  from convert_checkpoint_ok [OF True, of cwd h] show ?thesis
    using True by simp
next
  case False
  have "files (convert_checkpoint cwd p h) log_filename = Some (stdout p)"
    using convert_checkpoint_failed [OF False, of cwd h] by simp
  moreover have "take 4 (drop (Suc (length (printed h))) (printed (convert_checkpoint cwd p h))) =
      [''Model conversion failed!'', hashes @ ''\<newline>Logs:\<newline>'' @ hashes,
       stdout p, hashes @ ''\<newline>'']"
    using False by (simp add: convert_checkpoint_def print_def Let_def)
  ultimately show ?thesis
    using False by simp
qed

theorem C7_conversion_failure_logged_witness:
  "files (convert_checkpoint ''/ws'' \<lparr>returncode = 1, stdout = ''Traceback''\<rparr>
           \<lparr>files = Map.empty, printed = []\<rparr>) log_filename = Some ''Traceback'' \<and>
   files (convert_checkpoint ''/ws'' \<lparr>returncode = 0, stdout = ''done''\<rparr>
           \<lparr>files = [log_filename \<mapsto> ''old''], printed = []\<rparr>) log_filename = None"
  using C7_conversion_failure_logged [of "''/ws''" "\<lparr>returncode = 1, stdout = ''Traceback''\<rparr>"
          "\<lparr>files = Map.empty, printed = []\<rparr>"]
        C7_conversion_failure_logged [of "''/ws''" "\<lparr>returncode = 0, stdout = ''done''\<rparr>"
          "\<lparr>files = [log_filename \<mapsto> ''old''], printed = []\<rparr>"]
  by simp

section \<open>Results of element-wise operations\<close>

lemma map_res_map: "(\<And>x. x \<in> set xs \<Longrightarrow> f x = Inr (g x)) \<Longrightarrow> map_res f xs = Inr (map g xs)"
  by (induction xs) simp_all

lemma map_res_length: "map_res f xs = Inr ys \<Longrightarrow> length ys = length xs"
  by (induction xs arbitrary: ys) (auto split: sum.splits)

lemma map_res_nth: "map_res f xs = Inr ys \<Longrightarrow> i < length xs \<Longrightarrow> f (xs ! i) = Inr (ys ! i)"
proof (induction xs arbitrary: ys i)
  case Nil
  then show ?case by simp
next
  case (Cons x xs)
  then show ?case
    by (cases i) (auto split: sum.splits)
qed

lemma radd_str_text: "radd_str s (map (\<lambda>t. Str (f t)) ts) = Inr (map (\<lambda>t. Str (s @ f t)) ts)"
  unfolding radd_str_def by (induction ts) simp_all

lemma add_str_text: "add_str (map (\<lambda>t. Str (f t)) ts) s = Inr (map (\<lambda>t. Str (f t @ s)) ts)"
  unfolding add_str_def by (induction ts) simp_all

lemma add_series_text:
  "add_series (map (\<lambda>t. Str (f t)) ts) (map Str qs) = Inr (map (\<lambda>(t, q). Str (f t @ q)) (zip ts qs))"
  unfolding add_series_def
proof (induction ts arbitrary: qs)
  case Nil
  show ?case by simp
next
  case (Cons t ts)
  show ?case by (cases qs) (simp_all add: Cons.IH)
qed

lemma all_Str_ex:
  "list_all (\<lambda>x. case x of Str s \<Rightarrow> True | Num n \<Rightarrow> False) xs \<Longrightarrow> \<exists>ss. xs = map Str ss"
proof (induction xs)
  case Nil
  show ?case by simp
next
  case (Cons x xs)
  then obtain ss where "xs = map Str ss" by auto
  moreover from Cons.prems obtain s where "x = Str s" by (cases x) auto
  ultimately have "x # xs = map Str (s # ss)" by simp
  then show ?case by (rule exI [of _ "s # ss"])
qed

lemma text_columnD: "text_column df c \<Longrightarrow> \<exists>ss. map_of (cols df) c = Some (map Str ss)"
  unfolding text_column_def by (auto split: option.splits dest: all_Str_ex)

lemma wf_df_length: "wf_df df \<Longrightarrow> map_of (cols df) c = Some xs \<Longrightarrow> length xs = len_df df"
  unfolding wf_df_def by (auto simp: list_all_iff dest!: map_of_SomeD)

lemma map_of_columns: "map_of (cols df) c = Some xs \<Longrightarrow> c \<in> set (columns df)"
  unfolding columns_def by (auto dest!: map_of_SomeD intro: rev_image_eqI)

lemma columns_map_of: "c \<in> set (columns df) \<Longrightarrow> \<exists>xs. map_of (cols df) c = Some xs"
  unfolding columns_def by (cases "map_of (cols df) c") (auto simp: map_of_eq_None_iff)

lemma columns_setitem:
  "columns (setitem c xs df) = (if c \<in> set (columns df) then columns df else columns df @ [c])"
  by (simp add: columns_def setitem_def update_keys)

lemma drop_columns_ok:
  "set cs \<subseteq> set (columns df) \<Longrightarrow>
   drop_columns cs df = Inr (df\<lparr>cols := filter (\<lambda>(k, xs). k \<notin> set cs) (cols df)\<rparr>)"
proof -
  assume "set cs \<subseteq> set (columns df)"
  then have "filter (\<lambda>c. c \<notin> set (columns df)) cs = []"
    by (auto simp: filter_empty_conv)
  then show ?thesis by (simp add: drop_columns_def)
qed

lemma columns_filter:
  "columns (df\<lparr>cols := filter (\<lambda>(k, xs). P k) (cols df)\<rparr>) = filter P (columns df)"
  by (simp add: columns_def filter_map o_def split_def)

lemma filter_filter_keys:
  "filter (\<lambda>(k, xs). k \<notin> set bs) (filter (\<lambda>(k, xs). k \<notin> set as) al)
   = filter (\<lambda>(k, xs). k \<notin> set (as @ bs)) al"
  by (induction al) auto

section \<open>Formatting: the columns of the formatted frame\<close>

lemma format_dataset_text:
  assumes t: "map_of (cols df) ''title'' = Some (map Str ts)"
      and q: "map_of (cols df) ''question'' = Some (map Str qs)"
  shows "format_dataset df fn =
     Inr (from_pandas
           (df\<lparr>cols := filter (\<lambda>(k, xs). k \<notin> set ([''title'', ''question''] @
                            (if ''tags'' \<in> set (columns df) then [''tags''] else [])))
                   (formatted_cols df fn (map (\<lambda>(t, q). formatted_input t q) (zip ts qs))
                        (case map_of (cols df) ''tags'' of
                           Some tg \<Rightarrow> tg | None \<Rightarrow> replicate (len_df df) (Str [])))\<rparr>))"
proof -
  define I where "I = map (\<lambda>(t, q). formatted_input t q) (zip ts qs)"
  define out where "out = (case map_of (cols df) ''tags'' of
                           Some tg \<Rightarrow> tg | None \<Rightarrow> replicate (len_df df) (Str []))"
  define F where "F = formatted_cols df fn I out"
  have tk: "''title'' \<in> set (columns df)" and qk: "''question'' \<in> set (columns df)"
    using t q by (auto dest: map_of_columns)
  have keys: "set (columns df) \<subseteq> set (columns (df\<lparr>cols := F\<rparr>))"
    by (auto simp: F_def formatted_cols_def columns_def update_keys)
  have inp: "radd_str (SYSTEM_PROMPT @ ''TITLE:\<newline>'') (map Str ts)
                 = Inr (map (\<lambda>t. Str ((SYSTEM_PROMPT @ ''TITLE:\<newline>'') @ t)) ts)"
    using radd_str_text [of _ "\<lambda>t. t"] by simp
  have s3: "add_series (map (\<lambda>t. Str (((SYSTEM_PROMPT @ ''TITLE:\<newline>'') @ t) @ ''\<newline>\<newline>'' @ ''QUESTION:\<newline>'')) ts) (map Str qs) = Inr I"
    unfolding I_def by (auto simp: add_series_text formatted_input_def)
  have outp: "(if ''tags'' \<in> set (columns df) then getitem (setitem ''input'' I df) ''tags''
                 else Inr (replicate (len_df (setitem ''input'' I df)) (Str []))) = Inr out"
  proof (cases "''tags'' \<in> set (columns df)")
    case True
    then obtain tg where "map_of (cols df) ''tags'' = Some tg"
      by (auto dest: columns_map_of)
    with True show ?thesis
      by (simp add: out_def getitem_def setitem_def update_conv)
  next
    case False
    then have "map_of (cols df) ''tags'' = None"
      by (auto simp: columns_def map_of_eq_None_iff)
    with False show ?thesis
      by (simp add: out_def setitem_def len_df_def)
  qed
  have step: "format_dataset df fn =
      (case drop_columns [''title'', ''question''] (df\<lparr>cols := F\<rparr>) of
         Inl e \<Rightarrow> Inl e
       | Inr df4 \<Rightarrow>
           (case (if ''tags'' \<in> set (columns df) then drop_columns [''tags''] df4 else Inr df4) of
              Inl e \<Rightarrow> Inl e
            | Inr df5 \<Rightarrow> Inr (from_pandas df5)))"
    unfolding format_dataset_def Let_def
    using t q s3
    by (simp add: getitem_def inp add_str_text outp F_def formatted_cols_def
          setitem_scalar_def setitem_def len_df_def)
  have d1: "drop_columns [''title'', ''question''] (df\<lparr>cols := F\<rparr>)
            = Inr (df\<lparr>cols := filter (\<lambda>(k, xs). k \<notin> set [''title'', ''question'']) F\<rparr>)"
    using drop_columns_ok [of "[''title'', ''question'']" "df\<lparr>cols := F\<rparr>"] tk qk keys
    by auto
  show ?thesis
  proof (cases "''tags'' \<in> set (columns df)")
    case True
    with keys have "''tags'' \<in> set (columns (df\<lparr>cols := F\<rparr>))" by auto
    then have "set [''tags''] \<subseteq> set (columns (df\<lparr>cols := filter (\<lambda>(k, xs). k \<notin> set [''title'', ''question'']) F\<rparr>))"
      by (auto simp: columns_def)
    from drop_columns_ok [OF this] True show ?thesis
      unfolding step d1 by (simp add: filter_filter_keys F_def I_def out_def split_def)
  next
    case False
    then show ?thesis
      unfolding step d1 by (simp add: F_def I_def out_def)
  qed
qed

section \<open>Datasets in the order of their labels\<close>

lemma length_label_order: "length (label_order df) = len_df df"
  by (simp add: label_order_def)

lemma set_label_order: "set (label_order df) = {0..<len_df df}"
  by (simp add: label_order_def)

lemma mset_label_order: "mset (label_order df) = mset [0..<len_df df]"
  by (simp add: label_order_def)

lemma label_order_nth_less: "i < len_df df \<Longrightarrow> label_order df ! i < len_df df"
  using set_label_order [of df] length_label_order [of df] nth_mem [of i "label_order df"]
  by auto

lemma label_order_idx: "idx df' = idx df \<Longrightarrow> label_order df' = label_order df"
  by (simp add: label_order_def len_df_def)

lemma len_df_from_pandas: "len_df (from_pandas df) = len_df df"
  by (simp add: from_pandas_def len_df_def iloc_def length_label_order [unfolded len_df_def])

lemma columns_from_pandas: "columns (from_pandas df) = columns df"
  by (simp add: from_pandas_def columns_def iloc_def split_def o_def)

lemma record_at_iloc: "i < length ps \<Longrightarrow> record_at (iloc ps df) i = record_at df (ps ! i)"
  by (simp add: record_at_def iloc_def split_def o_def)

lemma record_at_from_pandas:
  "i < len_df df \<Longrightarrow> record_at (from_pandas df) i = record_at df (label_order df ! i)"
  by (simp add: from_pandas_def record_at_iloc length_label_order)

lemma sorted_idx_from_pandas: "sorted (idx (from_pandas df))"
  by (simp add: from_pandas_def iloc_def label_order_def)

lemma mset_idx_from_pandas: "mset (idx (from_pandas df)) = mset (idx df)"
proof -
  have "mset (idx (from_pandas df)) = image_mset (\<lambda>i. idx df ! i) (mset (label_order df))"
    by (simp add: from_pandas_def iloc_def)
  also have "\<dots> = mset (map (\<lambda>i. idx df ! i) [0..<length (idx df)])"
    by (simp add: mset_label_order len_df_def)
  also have "\<dots> = mset (idx df)"
    by (simp only: map_nth)
  finally show ?thesis .
qed

lemma map_of_cols_iloc:
  "map_of (cols (iloc ps df)) c = map_option (\<lambda>xs. map (\<lambda>i. xs ! i) ps) (map_of (cols df) c)"
  by (simp add: iloc_def map_of_map)

lemma from_pandas_replicate:
  assumes "map_of (cols df) c = Some (replicate (len_df df) v)"
  shows "map_of (cols (from_pandas df)) c = Some (replicate (len_df df) v)"
proof -
  have "map (\<lambda>i. replicate (len_df df) v ! i) (label_order df) = replicate (len_df df) v"
  proof (rule nth_equalityI)
    show "length (map (\<lambda>i. replicate (len_df df) v ! i) (label_order df))
          = length (replicate (len_df df) v)"
      by (simp add: length_label_order)
  next
    fix i assume "i < length (map (\<lambda>i. replicate (len_df df) v ! i) (label_order df))"
    then have "i < len_df df" by (simp add: length_label_order)
    then show "map (\<lambda>i. replicate (len_df df) v ! i) (label_order df) ! i
               = replicate (len_df df) v ! i"
      by (simp add: length_label_order label_order_nth_less)
  qed
  with assms show ?thesis
    by (simp add: from_pandas_def map_of_cols_iloc)
qed

section \<open>Formatting: the records of the formatted dataset\<close>

lemma field_record_at:
  "field (record_at df i) c = map_option (\<lambda>xs. xs ! i) (map_of (cols df) c)"
  by (simp add: field_def record_at_def map_of_map)

lemma map_of_filter_keys:
  "map_of (filter (\<lambda>(k, xs). P k) al) c = (if P c then map_of al c else None)"
  using map_of_filter [of P al]
  by (simp add: split_def restrict_map_def)

lemma formatted_rows:
  assumes wf: "wf_df df"
      and t: "map_of (cols df) ''title'' = Some (map Str ts)"
      and q: "map_of (cols df) ''question'' = Some (map Str qs)"
  obtains u where "format_dataset df fn = Inr (from_pandas u)" "idx u = idx df"
    "map_of (cols u) ''input'' = Some (map (\<lambda>(t, q). formatted_input t q) (zip ts qs))"
    "map_of (cols u) ''output'' = Some (case map_of (cols df) ''tags'' of
                           Some tg \<Rightarrow> tg | None \<Rightarrow> replicate (len_df df) (Str []))"
    "map_of (cols u) ''filename'' = Some (replicate (len_df df) (Str fn))"
    "length ts = len_df df" "length qs = len_df df"
proof -
  from wf t have lt: "length ts = len_df df" using wf_df_length by fastforce
  from wf q have lq: "length qs = len_df df" using wf_df_length by fastforce
  show thesis
    by (rule that [OF format_dataset_text [OF t q]])
       (simp_all add: map_of_filter_keys formatted_cols_def update_conv lt lq)
qed

text \<open>
  The formatted dataset, row by row: the row at position \<open>i\<close> comes from the input row
  at position \<open>label_order df ! i\<close>.
\<close>

lemma formatted_records:
  assumes wf: "wf_df df" and tt: "text_column df ''title''" and tq: "text_column df ''question''"
  shows "\<exists>out. format_dataset df fn = Inr out \<and> len_df out = len_df df \<and>
    sorted (idx out) \<and> mset (idx out) = mset (idx df) \<and>
    (\<forall>i<len_df df. fst (record_at out i) = fst (record_at df (label_order df ! i))) \<and>
    (\<forall>i<len_df df. \<forall>t q.
        field (record_at df (label_order df ! i)) ''title'' = Some (Str t) \<longrightarrow>
        field (record_at df (label_order df ! i)) ''question'' = Some (Str q) \<longrightarrow>
        field (record_at out i) ''input'' = Some (formatted_input t q)) \<and>
    (\<forall>i<len_df df. field (record_at out i) ''output'' =
        (if ''tags'' \<in> set (columns df) then field (record_at df (label_order df ! i)) ''tags''
         else Some (Str [])))"
proof -
  from tt obtain ts where t: "map_of (cols df) ''title'' = Some (map Str ts)"
    by (auto dest: text_columnD)
  from tq obtain qs where q: "map_of (cols df) ''question'' = Some (map Str qs)"
    by (auto dest: text_columnD)
  from formatted_rows [OF wf t q, of fn] obtain u where
    u: "format_dataset df fn = Inr (from_pandas u)" "idx u = idx df"
      "map_of (cols u) ''input'' = Some (map (\<lambda>(t, q). formatted_input t q) (zip ts qs))"
      "map_of (cols u) ''output'' = Some (case map_of (cols df) ''tags'' of
                           Some tg \<Rightarrow> tg | None \<Rightarrow> replicate (len_df df) (Str []))"
      "length ts = len_df df" "length qs = len_df df"
    by blast
  have lu: "len_df u = len_df df" using u(2) by (simp add: len_df_def)
  have lo: "label_order u = label_order df" using u(2) by (rule label_order_idx)
  have row: "record_at (from_pandas u) i = record_at u (label_order df ! i)"
    if "i < len_df df" for i
    using that record_at_from_pandas [of i u] by (simp add: lu lo)
  have a: "len_df (from_pandas u) = len_df df"
    by (simp add: len_df_from_pandas lu)
  have b: "sorted (idx (from_pandas u))" by (rule sorted_idx_from_pandas)
  have c: "mset (idx (from_pandas u)) = mset (idx df)"
    by (simp add: mset_idx_from_pandas u(2))
  have d: "fst (record_at (from_pandas u) i) = fst (record_at df (label_order df ! i))"
    if "i < len_df df" for i
    using row [OF that] u(2) by (simp add: record_at_def)
  have e: "field (record_at (from_pandas u) i) ''input'' = Some (formatted_input t' q')"
    if "i < len_df df"
       "field (record_at df (label_order df ! i)) ''title'' = Some (Str t')"
       "field (record_at df (label_order df ! i)) ''question'' = Some (Str q')" for i t' q'
  proof -
    from that(1) have j: "label_order df ! i < len_df df" by (rule label_order_nth_less)
    with that(2,3) t q u(5,6) have "ts ! (label_order df ! i) = t'" "qs ! (label_order df ! i) = q'"
      by (simp_all add: field_record_at)
    with j u(3,5,6) show ?thesis
      by (simp add: row [OF that(1)] field_record_at)
  qed
  have f: "field (record_at (from_pandas u) i) ''output'' =
        (if ''tags'' \<in> set (columns df) then field (record_at df (label_order df ! i)) ''tags''
         else Some (Str []))"
    if "i < len_df df" for i
  proof (cases "''tags'' \<in> set (columns df)")
    case True
    then obtain tg where "map_of (cols df) ''tags'' = Some tg"
      by (auto dest: columns_map_of)
    with True u(4) show ?thesis by (simp add: row [OF that] field_record_at)
  next
    case False
    then have "map_of (cols df) ''tags'' = None"
      by (auto simp: columns_def map_of_eq_None_iff)
    with False u(4) label_order_nth_less [OF that] show ?thesis
      by (simp add: row [OF that] field_record_at)
  qed
  show ?thesis
  proof (intro exI [of _ "from_pandas u"] conjI allI impI)
    show "format_dataset df fn = Inr (from_pandas u)" by (rule u(1))
    show "len_df (from_pandas u) = len_df df" by (rule a)
    show "sorted (idx (from_pandas u))" by (rule b)
    show "mset (idx (from_pandas u)) = mset (idx df)" by (rule c)
    show "fst (record_at (from_pandas u) i) = fst (record_at df (label_order df ! i))"
      if "i < len_df df" for i using that by (rule d)
    show "field (record_at (from_pandas u) i) ''input'' = Some (formatted_input t' q')"
      if "i < len_df df"
       "field (record_at df (label_order df ! i)) ''title'' = Some (Str t')"
       "field (record_at df (label_order df ! i)) ''question'' = Some (Str q')" for i t' q'
      using that by (rule e)
    show "field (record_at (from_pandas u) i) ''output'' =
        (if ''tags'' \<in> set (columns df) then field (record_at df (label_order df ! i)) ''tags''
         else Some (Str []))"
      if "i < len_df df" for i using that by (rule f)
  qed
qed

text \<open>
  C10. On a frame whose \<open>title\<close> and \<open>question\<close> columns hold strings,
  \<open>format_dataset\<close> returns a dataset of as many records, in the order of their
  labels: the record at position \<open>i\<close> comes from the input record at position
  \<open>label_order df ! i\<close> (these positions are a permutation of the positions of the
  input) and carries its label. Its \<open>input\<close> field is exactly the instruction preamble,
  then \<open>TITLE:\<close> and a line feed, the title of that input record, two line feeds,
  \<open>QUESTION:\<close> and a line feed, and its question. The preamble is the same fixed
  non-empty prompt for every record.
\<close>

theorem C10_input_is_prompt_title_question:
  assumes "wf_df df" and "text_column df ''title''" and "text_column df ''question''"
  shows "\<exists>out. format_dataset df filename = Inr out \<and> len_df out = len_df df \<and>
     mset (label_order df) = mset [0..<len_df df] \<and>
     (\<forall>i<len_df df.
        fst (record_at out i) = fst (record_at df (label_order df ! i)) \<and>
        (\<forall>t q.
           field (record_at df (label_order df ! i)) ''title'' = Some (Str t) \<and>
           field (record_at df (label_order df ! i)) ''question'' = Some (Str q) \<longrightarrow>
           field (record_at out i) ''input'' =
             Some (Str (SYSTEM_PROMPT @ ''TITLE:\<newline>'' @ t @ ''\<newline>\<newline>QUESTION:\<newline>'' @ q)))) \<and>
     SYSTEM_PROMPT \<noteq> []"
proof -
  from formatted_records [OF assms, of filename] obtain out where
    out: "format_dataset df filename = Inr out" "len_df out = len_df df"
    and lab0: "\<forall>i<len_df df. fst (record_at out i) = fst (record_at df (label_order df ! i))"
    and inp0: "\<forall>i<len_df df. \<forall>t q.
        field (record_at df (label_order df ! i)) ''title'' = Some (Str t) \<longrightarrow>
        field (record_at df (label_order df ! i)) ''question'' = Some (Str q) \<longrightarrow>
        field (record_at out i) ''input'' = Some (formatted_input t q)"
    by (elim exE conjE)
  have lab: "fst (record_at out i) = fst (record_at df (label_order df ! i))"
    if "i < len_df df" for i using lab0 that by simp
  have inp: "field (record_at out i) ''input'' = Some (formatted_input t q)"
    if "i < len_df df" "field (record_at df (label_order df ! i)) ''title'' = Some (Str t)"
       "field (record_at df (label_order df ! i)) ''question'' = Some (Str q)" for i t q
    using inp0 that by simp
  have rows: "\<forall>i<len_df df.
        fst (record_at out i) = fst (record_at df (label_order df ! i)) \<and>
        (\<forall>t q.
           field (record_at df (label_order df ! i)) ''title'' = Some (Str t) \<and>
           field (record_at df (label_order df ! i)) ''question'' = Some (Str q) \<longrightarrow>
           field (record_at out i) ''input'' =
             Some (Str (SYSTEM_PROMPT @ ''TITLE:\<newline>'' @ t @ ''\<newline>\<newline>QUESTION:\<newline>'' @ q)))"
  proof (intro allI impI conjI)
    fix i assume "i < len_df df"
    then show "fst (record_at out i) = fst (record_at df (label_order df ! i))" by (rule lab)
  next
    fix i t q assume i: "i < len_df df"
      and tq: "field (record_at df (label_order df ! i)) ''title'' = Some (Str t) \<and>
               field (record_at df (label_order df ! i)) ''question'' = Some (Str q)"
    from inp [OF i conjunct1 [OF tq] conjunct2 [OF tq]]
    show "field (record_at out i) ''input'' =
             Some (Str (SYSTEM_PROMPT @ ''TITLE:\<newline>'' @ t @ ''\<newline>\<newline>QUESTION:\<newline>'' @ q))"
      by (simp add: formatted_input_def)
  qed
  have "SYSTEM_PROMPT \<noteq> []" by (simp add: SYSTEM_PROMPT_def)
  with out rows mset_label_order [of df] show ?thesis
    by (intro exI [of _ out] conjI)
qed

text \<open>
  C2. Formatting is total on frames whose \<open>title\<close> and \<open>question\<close> columns hold
  strings, with or without a \<open>tags\<close> column: \<open>format_dataset\<close> returns a dataset with
  one formatted record for each input record. The records come in the order of their
  labels: the labels of the result are the labels of the input, sorted, and the record
  at position \<open>i\<close> comes from the input record at position \<open>label_order df ! i\<close>,
  these positions being a permutation of the positions of the input. The \<open>input\<close> of
  every formatted record is a non-empty string. Its \<open>output\<close> is the tags string of
  its input record when the frame has a \<open>tags\<close> column and the empty string otherwise;
  so it is empty exactly when the source record lacked tags, that is, when there is no
  \<open>tags\<close> field or the tags string is itself empty.
\<close>

theorem C2_formatting_total:
  assumes "wf_df df" and "text_column df ''title''" and "text_column df ''question''"
  shows "\<exists>out. format_dataset df filename = Inr out \<and>
     length (records out) = length (records df) \<and>
     sorted (idx out) \<and> mset (idx out) = mset (idx df) \<and>
     mset (label_order df) = mset [0..<len_df df] \<and>
     (\<forall>i<len_df df. fst (record_at out i) = fst (record_at df (label_order df ! i))) \<and>
     (\<forall>i<len_df df. \<exists>s. field (record_at out i) ''input'' = Some (Str s) \<and> s \<noteq> []) \<and>
     (\<forall>i<len_df df. field (record_at out i) ''output'' =
         (if ''tags'' \<in> set (columns df) then field (record_at df (label_order df ! i)) ''tags''
          else Some (Str []))) \<and>
     (\<forall>i<len_df df. field (record_at out i) ''output'' = Some (Str []) \<longleftrightarrow>
         ''tags'' \<notin> set (columns df) \<or>
         field (record_at df (label_order df ! i)) ''tags'' = Some (Str []))"
proof -
  from formatted_records [OF assms, of filename] obtain out where
    out: "format_dataset df filename = Inr out" "len_df out = len_df df"
      "sorted (idx out)" "mset (idx out) = mset (idx df)"
    and lab0: "\<forall>i<len_df df. fst (record_at out i) = fst (record_at df (label_order df ! i))"
    and inp0: "\<forall>i<len_df df. \<forall>t q.
        field (record_at df (label_order df ! i)) ''title'' = Some (Str t) \<longrightarrow>
        field (record_at df (label_order df ! i)) ''question'' = Some (Str q) \<longrightarrow>
        field (record_at out i) ''input'' = Some (formatted_input t q)"
    and outp0: "\<forall>i<len_df df. field (record_at out i) ''output'' =
        (if ''tags'' \<in> set (columns df) then field (record_at df (label_order df ! i)) ''tags''
         else Some (Str []))"
    by (elim exE conjE)
  have inp: "field (record_at out i) ''input'' = Some (formatted_input t q)"
    if "i < len_df df" "field (record_at df (label_order df ! i)) ''title'' = Some (Str t)"
       "field (record_at df (label_order df ! i)) ''question'' = Some (Str q)" for i t q
    using inp0 that by simp
  have outp: "field (record_at out i) ''output'' =
        (if ''tags'' \<in> set (columns df) then field (record_at df (label_order df ! i)) ''tags''
         else Some (Str []))" if "i < len_df df" for i
    using outp0 that by simp
  from assms(2) obtain ts where t: "map_of (cols df) ''title'' = Some (map Str ts)"
    by (auto dest: text_columnD)
  from assms(3) obtain qs where q: "map_of (cols df) ''question'' = Some (map Str qs)"
    by (auto dest: text_columnD)
  have lt: "length ts = len_df df" using wf_df_length [OF assms(1) t] by simp
  have lq: "length qs = len_df df" using wf_df_length [OF assms(1) q] by simp
  have len: "length (records out) = length (records df)"
    using out(2) by (simp add: records_def)
  have nonempty: "\<exists>s. field (record_at out i) ''input'' = Some (Str s) \<and> s \<noteq> []"
    if i: "i < len_df df" for i
  proof -
    from i have j: "label_order df ! i < len_df df" by (rule label_order_nth_less)
    have "field (record_at df (label_order df ! i)) ''title'' = Some (Str (ts ! (label_order df ! i)))"
      "field (record_at df (label_order df ! i)) ''question'' = Some (Str (qs ! (label_order df ! i)))"
      using j t q lt lq by (simp_all add: field_record_at)
    from inp [OF i this] show ?thesis by (simp add: formatted_input_def)
  qed
  have "field (record_at out i) ''output'' = Some (Str []) \<longleftrightarrow>
         ''tags'' \<notin> set (columns df) \<or>
         field (record_at df (label_order df ! i)) ''tags'' = Some (Str [])"
    if "i < len_df df" for i
    using outp [OF that] by simp
  then have empty: "\<forall>i<len_df df. field (record_at out i) ''output'' = Some (Str []) \<longleftrightarrow>
         ''tags'' \<notin> set (columns df) \<or>
         field (record_at df (label_order df ! i)) ''tags'' = Some (Str [])"
    by simp
  from nonempty have ne: "\<forall>i<len_df df. \<exists>s. field (record_at out i) ''input'' = Some (Str s) \<and> s \<noteq> []"
    by simp
  from out(1) len out(3,4) mset_label_order [of df] lab0 ne outp0 empty show ?thesis
    by (intro exI [of _ out] conjI)
qed

section \<open>The normalizer stage\<close>

lemma getitem_setitem: "getitem (setitem c xs df) c = Inr xs"
  by (simp add: getitem_def setitem_def update_conv)

lemma setitem_setitem: "setitem c ys (setitem c xs df) = setitem c ys df"
  by (simp add: setitem_def)

text \<open>
  The normalizer stage applied to its own output changes nothing, provided the
  rewriting of one text has that property. The rewriting itself belongs to the
  curation library and stays a parameter.
\<close>

lemma Modify_idempotent:
  assumes idem: "\<And>s. f (f s) = f s"
      and run: "Modify f c df = Inr df'"
  shows "Modify f c df' = Inr df'"
proof -
  let ?g = "\<lambda>x. case x of Str s \<Rightarrow> Inr (Str (f s)) | Num n \<Rightarrow> Inl TypeError"
  from run obtain xs ys where xs: "getitem df c = Inr xs"
    and ys: "map_res ?g xs = Inr ys" and df': "df' = setitem c ys df"
    by (auto simp: Modify_def split: sum.splits)
  have "?g y = Inr y" if "y \<in> set ys" for y
  proof -
    from that obtain i where i: "i < length ys" "y = ys ! i"
      by (auto simp: in_set_conv_nth)
    with map_res_length [OF ys] map_res_nth [OF ys, of i] have "?g (xs ! i) = Inr y" by simp
    then show ?thesis using idem by (cases "xs ! i") auto
  qed
  then have "map_res ?g ys = Inr (map (\<lambda>y. y) ys)" by (rule map_res_map)
  then show ?thesis
    by (simp add: Modify_def df' getitem_setitem setitem_setitem)
qed

section \<open>The filter stages\<close>

lemma records_iloc: "records (iloc ps df) = map (record_at df) ps"
proof (rule nth_equalityI)
  show "length (records (iloc ps df)) = length (map (record_at df) ps)"
    by (simp add: records_def len_df_def iloc_def)
next
  fix j assume "j < length (records (iloc ps df))"
  then have j: "j < length ps"
    by (simp add: records_def len_df_def iloc_def)
  then show "records (iloc ps df) ! j = map (record_at df) ps ! j"
    by (simp add: records_def len_df_def iloc_def record_at_def split_def o_def)
qed

lemma records_mask_rows:
  "records (mask_rows keep df) = map (record_at df) (filter (\<lambda>i. keep ! i) [0..<len_df df])"
  by (simp add: mask_rows_def records_iloc)

lemma all_Num_ex:
  "list_all (\<lambda>x. case x of Str s \<Rightarrow> False | Num n \<Rightarrow> True) xs \<Longrightarrow> \<exists>ns. xs = map Num ns"
proof (induction xs)
  case Nil
  show ?case by simp
next
  case (Cons x xs)
  then obtain ns where "xs = map Num ns" by auto
  moreover from Cons.prems obtain n where "x = Num n" by (cases x) auto
  ultimately have "x # xs = map Num (n # ns)" by simp
  then show ?case by (rule exI [of _ "n # ns"])
qed

lemma num_columnD: "num_column df c \<Longrightarrow> \<exists>ns. map_of (cols df) c = Some (map Num ns)"
  unfolding num_column_def by (auto split: option.splits dest: all_Num_ex)

lemma ScoreFilter_records:
  assumes wf: "wf_df df"
      and c: "map_of (cols df) c = Some xs"
      and sc: "\<And>x. x \<in> set xs \<Longrightarrow> score_document flt x = Inr (sc x)"
  shows "\<exists>out. ScoreFilter flt c df = Inr out \<and>
           records out = filter (\<lambda>r. case field r c of Some x \<Rightarrow> keep_document flt (sc x)
                                                      | None \<Rightarrow> False) (records df)"
proof -
  have len: "length xs = len_df df" using wf c by (rule wf_df_length)
  have run: "ScoreFilter flt c df = Inr (mask_rows (map (keep_document flt) (map sc xs)) df)"
    using c map_res_map [of xs "score_document flt" sc, OF sc]
    by (simp add: ScoreFilter_def getitem_def)
  define P where "P = (\<lambda>r. case field r c of Some x \<Rightarrow> keep_document flt (sc x) | None \<Rightarrow> False)"
  have sel: "filter (\<lambda>i. map (keep_document flt) (map sc xs) ! i) [0..<len_df df]
        = filter (P \<circ> record_at df) [0..<len_df df]"
    by (rule filter_cong) (simp_all add: len field_record_at c P_def)
  have "records (mask_rows (map (keep_document flt) (map sc xs)) df)
        = map (record_at df) (filter (\<lambda>i. map (keep_document flt) (map sc xs) ! i) [0..<len_df df])"
    by (rule records_mask_rows)
  also have "\<dots> = map (record_at df) (filter (P \<circ> record_at df) [0..<len_df df])"
    by (simp only: sel)
  also have "\<dots> = filter P (records df)"
    by (simp add: records_def filter_map)
  finally have "records (mask_rows (map (keep_document flt) (map sc xs)) df)
        = filter (\<lambda>r. case field r c of Some x \<Rightarrow> keep_document flt (sc x) | None \<Rightarrow> False)
            (records df)"
    by (simp add: P_def)
  with run show ?thesis by simp
qed

text \<open>
  C3. The word-count stage of the pipeline keeps exactly the records whose \<open>question\<close>
  has at least 50 and at most 500 words, both bounds inclusive, and keeps them as they
  are: the surviving records are the input records filtered by that predicate. Hence
  every survivor has a word count within the bounds, and a record of the input
  survives if and only if its word count is within them.
\<close>

theorem C3_word_count_bounds:
  assumes "wf_df df" and "text_column df ''question''"
  shows "\<exists>out. word_count_stage df = Inr out \<and>
           records out = filter within_word_bounds (records df) \<and>
           (\<forall>r \<in> set (records out). \<exists>q. field r ''question'' = Some (Str q) \<and>
                 50 \<le> word_count q \<and> word_count q \<le> 500) \<and>
           (\<forall>r \<in> set (records df). r \<in> set (records out) \<longleftrightarrow>
                 (\<exists>q. field r ''question'' = Some (Str q) \<and> 50 \<le> word_count q \<and> word_count q \<le> 500))"
proof -
  from assms(2) obtain qs where q: "map_of (cols df) ''question'' = Some (map Str qs)"
    by (auto dest: text_columnD)
  define sc where "sc = (\<lambda>x. case x of Str s \<Rightarrow> word_count s | Num n \<Rightarrow> 0)"
  have "\<And>x. x \<in> set (map Str qs) \<Longrightarrow> score_document (WordCountFilter 50 500) x = Inr (sc x)"
    by (auto simp: WordCountFilter_def sc_def)
  from ScoreFilter_records [OF assms(1) q this] obtain out where
    run: "word_count_stage df = Inr out"
    and recs: "records out = filter (\<lambda>r. case field r ''question'' of
                   Some x \<Rightarrow> keep_document (WordCountFilter 50 500) (sc x) | None \<Rightarrow> False) (records df)"
    by (auto simp: word_count_stage_def)
  have str: "\<exists>s. field r ''question'' = Some (Str s)" if "r \<in> set (records df)" for r
  proof -
    from that obtain i where "i < len_df df" "r = record_at df i"
      by (auto simp: records_def)
    moreover have "length qs = len_df df"
      using wf_df_length [OF assms(1) q] by simp
    ultimately show ?thesis
      by (simp add: field_record_at q)
  qed
  have eq: "records out = filter within_word_bounds (records df)"
    unfolding recs
    by (rule filter_cong) (auto simp: within_word_bounds_def WordCountFilter_def sc_def dest!: str)
  have wb: "within_word_bounds r \<longleftrightarrow>
        (\<exists>q. field r ''question'' = Some (Str q) \<and> 50 \<le> word_count q \<and> word_count q \<le> 500)" for r
    by (auto simp: within_word_bounds_def split: option.splits cell.splits)
  show ?thesis
    using run eq by (auto simp: wb)
qed

text \<open>
  C4. The score stage of the pipeline keeps exactly the records whose
  \<open>question_score\<close> is greater than or equal to the threshold 0, and keeps them as they
  are (the score is not transformed): the surviving records are the input records
  filtered by that predicate. Hence every survivor has \<open>question_score \<ge> 0\<close>.
\<close>

theorem C4_score_threshold:
  assumes "wf_df df" and "num_column df ''question_score''"
  shows "\<exists>out. low_score_stage df = Inr out \<and>
           records out = filter score_non_negative (records df) \<and>
           (\<forall>r \<in> set (records out). \<exists>n. field r ''question_score'' = Some (Num n) \<and> n \<ge> 0) \<and>
           (\<forall>r \<in> set (records df). r \<in> set (records out) \<longleftrightarrow>
                 (\<exists>n. field r ''question_score'' = Some (Num n) \<and> n \<ge> 0))"
proof -
  from assms(2) obtain ns where q: "map_of (cols df) ''question_score'' = Some (map Num ns)"
    by (auto dest: num_columnD)
  define sc where "sc = (\<lambda>x. case x of Num n \<Rightarrow> n \<ge> 0 | Str s \<Rightarrow> False)"
  have "\<And>x. x \<in> set (map Num ns) \<Longrightarrow> score_document (FilterLowScores 0) x = Inr (sc x)"
    by (auto simp: FilterLowScores_def sc_def)
  from ScoreFilter_records [OF assms(1) q this] obtain out where
    run: "low_score_stage df = Inr out"
    and recs: "records out = filter (\<lambda>r. case field r ''question_score'' of
                   Some x \<Rightarrow> keep_document (FilterLowScores 0) (sc x) | None \<Rightarrow> False) (records df)"
    by (auto simp: low_score_stage_def)
  have eq: "records out = filter score_non_negative (records df)"
    unfolding recs
    by (rule filter_cong)
       (auto simp: score_non_negative_def FilterLowScores_def sc_def split: option.splits cell.splits)
  have nn: "score_non_negative r \<longleftrightarrow>
        (\<exists>n. field r ''question_score'' = Some (Num n) \<and> n \<ge> 0)" for r
    by (auto simp: score_non_negative_def split: option.splits cell.splits)
  show ?thesis
    using run eq by (auto simp: nn)
qed

section \<open>The splitter\<close>

lemma len_df_iloc: "len_df (iloc ps df) = length ps"
  by (simp add: len_df_def iloc_def)

lemma columns_iloc: "columns (iloc ps df) = columns df"
  by (simp add: columns_def iloc_def split_def o_def)

lemma train_test_split_ok:
  assumes "0 < k" and "k < int (len_df df)"
  shows "train_test_split perm df k =
           Inr (iloc (take (len_df df - nat k) (drop (nat k) perm)) df, iloc (take (nat k) perm) df)"
  using assms by (simp add: train_test_split_def Let_def)

lemma train_test_split_Inr:
  assumes "train_test_split perm df k = Inr (tr, va)"
  shows "0 < k \<and> k < int (len_df df) \<and>
         tr = iloc (take (len_df df - nat k) (drop (nat k) perm)) df \<and>
         va = iloc (take (nat k) perm) df"
  using assms by (auto simp: train_test_split_def Let_def split: if_splits)

lemma train_test_split_Inl:
  assumes "train_test_split perm df k = Inl e"
  shows "e = ValueError \<and> \<not> (0 < k \<and> k < int (len_df df))"
  using assms by (auto simp: train_test_split_def Let_def split: if_splits)

text \<open>
  C1, as amended. With \<open>N\<close> records and ratio \<open>v\<close>, the size of the validation
  partition is \<open>int(N * v)\<close>, the float product truncated towards zero (not rounded),
  and the train partition has the remaining \<open>N - int(N * v)\<close> records, whenever
  \<open>0 < int(N * v) < N\<close>. Otherwise the splitter raises ValueError and there are no
  partitions. Where the product is exact and \<open>v \<ge> 0\<close>, \<open>int(N * v)\<close> is the floor of
  \<open>N * v\<close>.
\<close>

theorem C1_split_sizes:
  assumes "length perm = len_df df"
  shows "(0 < val_size fl (len_df df) v \<and> val_size fl (len_df df) v < int (len_df df) \<longrightarrow>
            (\<exists>tr va. split_frames fl perm df v = Inr (tr, va) \<and>
               int (len_df va) = py_int (fl (of_nat (len_df df) * v)) \<and>
               len_df tr = len_df df - len_df va)) \<and>
         (\<not> (0 < val_size fl (len_df df) v \<and> val_size fl (len_df df) v < int (len_df df)) \<longrightarrow>
            split_frames fl perm df v = Inl ValueError) \<and>
         (0 \<le> v \<longrightarrow> val_size id (len_df df) v = \<lfloor>of_nat (len_df df) * v\<rfloor>)"
proof -
  have "\<exists>tr va. split_frames fl perm df v = Inr (tr, va) \<and>
               int (len_df va) = py_int (fl (of_nat (len_df df) * v)) \<and>
               len_df tr = len_df df - len_df va"
    if k: "0 < val_size fl (len_df df) v" "val_size fl (len_df df) v < int (len_df df)"
  proof -
    let ?k = "val_size fl (len_df df) v"
    have "split_frames fl perm df v =
           Inr (iloc (take (len_df df - nat ?k) (drop (nat ?k) perm)) df, iloc (take (nat ?k) perm) df)"
      unfolding split_frames_def using k by (rule train_test_split_ok)
    moreover have "int (len_df (iloc (take (nat ?k) perm) df)) = py_int (fl (of_nat (len_df df) * v))"
      using k assms by (simp add: len_df_iloc val_size_def)
    moreover have "len_df (iloc (take (len_df df - nat ?k) (drop (nat ?k) perm)) df)
                   = len_df df - len_df (iloc (take (nat ?k) perm) df)"
      using k assms by (simp add: len_df_iloc)
    ultimately show ?thesis by blast
  qed
  moreover have "split_frames fl perm df v = Inl ValueError"
    if "\<not> (0 < val_size fl (len_df df) v \<and> val_size fl (len_df df) v < int (len_df df))"
    using that by (auto simp: split_frames_def train_test_split_def Let_def)
  moreover have "val_size id (len_df df) v = \<lfloor>of_nat (len_df df) * v\<rfloor>" if "0 \<le> v"
    using that by (simp add: val_size_def py_int_def)
  ultimately show ?thesis by blast
qed

lemma mset_map_take_drop:
  "mset (map f (drop k xs)) + mset (map f (take k xs)) = mset (map f xs)"
proof -
  have "mset (map f (take k xs @ drop k xs)) = mset (map f xs)" by simp
  then show ?thesis by (simp only: map_append mset_append add.commute)
qed

text \<open>
  C5. When the splitter returns, the train and the validation partition together hold
  exactly the records of the input dataset, each record as often as the input holds
  it: every record of the input lands in exactly one of the two partitions. Where the
  row labels of the input are distinct, the label sets of the two partitions are
  disjoint and their union is the label set of the input.
\<close>

theorem C5_split_disjoint_exhaustive:
  assumes split: "split_frames fl perm df v = Inr (tr, va)"
      and perm: "mset perm = mset [0..<len_df df]"
  shows "mset (records tr) + mset (records va) = mset (records df) \<and>
         (distinct (idx df) \<longrightarrow>
            set (idx tr) \<inter> set (idx va) = {} \<and> set (idx tr) \<union> set (idx va) = set (idx df))"
proof -
  let ?k = "nat (val_size fl (len_df df) v)"
  from train_test_split_Inr [OF split [unfolded split_frames_def]]
  have k: "0 < val_size fl (len_df df) v" "val_size fl (len_df df) v < int (len_df df)"
    and tr0: "tr = iloc (take (len_df df - ?k) (drop ?k perm)) df"
    and va: "va = iloc (take ?k perm) df"
    by simp_all
  have len: "length perm = len_df df"
    using perm by (metis length_upt size_mset minus_nat.diff_0)
  have tr: "tr = iloc (drop ?k perm) df"
    using tr0 len by simp
  have dperm: "distinct perm"
    using perm by (metis distinct_upt mset_eq_imp_distinct_iff)
  have sperm: "set perm = {0..<len_df df}"
    using perm by (metis mset_eq_setD set_upt)
  have "mset (records tr) + mset (records va) = mset (map (record_at df) perm)"
    unfolding tr va records_iloc by (rule mset_map_take_drop)
  also have "\<dots> = image_mset (record_at df) (mset perm)" by simp
  also have "\<dots> = mset (records df)" by (simp add: perm records_def)
  finally have parts: "mset (records tr) + mset (records va) = mset (records df)" .
  have labels: "set (idx tr) \<inter> set (idx va) = {} \<and> set (idx tr) \<union> set (idx va) = set (idx df)"
    if d: "distinct (idx df)"
  proof -
    have itr: "idx tr = map (\<lambda>i. idx df ! i) (drop ?k perm)"
      and iva: "idx va = map (\<lambda>i. idx df ! i) (take ?k perm)"
      by (simp_all add: tr va iloc_def)
    have inj: "inj_on (\<lambda>i. idx df ! i) (set perm)"
      unfolding sperm len_df_def using d by (auto simp: inj_on_def nth_eq_iff_index_eq)
    have "distinct (take ?k perm @ drop ?k perm)" using dperm by simp
    then have disj: "set (take ?k perm) \<inter> set (drop ?k perm) = {}"
      unfolding distinct_append by blast
    have sub: "set (take ?k perm) \<subseteq> set perm" "set (drop ?k perm) \<subseteq> set perm"
      by (auto dest: in_set_takeD in_set_dropD)
    have "set (idx tr) \<inter> set (idx va) = {}"
      unfolding itr iva set_map using inj disj sub
      by (auto simp: inj_on_def)
    moreover have "set (idx tr) \<union> set (idx va)
                     = (\<lambda>i. idx df ! i) ` (set (drop ?k perm) \<union> set (take ?k perm))"
      unfolding itr iva by (simp add: image_Un)
    moreover have "set (drop ?k perm) \<union> set (take ?k perm) = set perm"
      by (metis Un_commute set_append append_take_drop_id)
    moreover have "(\<lambda>i. idx df ! i) ` set perm = set (idx df)"
      unfolding sperm len_df_def by (auto simp: in_set_conv_nth)
    ultimately show ?thesis by simp
  qed
  from parts labels show ?thesis by blast
qed

lemma map_res_Inl: "map_res f xs = Inl e \<Longrightarrow> \<exists>x \<in> set xs. f x = Inl e"
  by (induction xs) (auto split: sum.splits)

lemma to_json_no_assert: "fst (to_json df dir d) \<noteq> Inl (AssertionError msg)"
  by (auto simp: to_json_def getitem_def cell_str_def split: option.splits sum.splits cell.splits
           dest!: map_res_Inl)

text \<open>
  C8. The splitting cell ends in an assertion error exactly when the formatted dataset
  is empty or the validation ratio lies outside the inclusive range from 0 to 1. The
  two assertions come before any effect of the cell: when one of them fails, the disk
  is as it was (no directory made, no file written).
\<close>

theorem C8_split_asserts:
  "((\<exists>msg. fst (split_dataset fl perm DATA_DIR df v d) = Inl (AssertionError msg)) \<longleftrightarrow>
      \<not> 0 < len_df df \<or> \<not> (0 \<le> v \<and> v \<le> 1)) \<and>
   (\<not> 0 < len_df df \<or> \<not> (0 \<le> v \<and> v \<le> 1) \<longrightarrow>
      snd (split_dataset fl perm DATA_DIR df v d) = d)"
proof -
  have fail: "\<exists>msg. split_dataset fl perm DATA_DIR df v d = (Inl (AssertionError msg), d)"
    if "\<not> 0 < len_df df \<or> \<not> (0 \<le> v \<and> v \<le> 1)"
    using that by (auto simp: split_dataset_def)
  have pass: "fst (split_dataset fl perm DATA_DIR df v d) \<noteq> Inl (AssertionError msg)"
    if ok: "0 < len_df df" "0 \<le> v" "v \<le> 1" for msg
  proof (cases "split_frames fl perm df v")
    case (Inl e)
    then have "e = ValueError"
      unfolding split_frames_def by (auto dest: train_test_split_Inl)
    with Inl ok show ?thesis by (simp add: split_dataset_def Let_def)
  next
    case (Inr p)
    obtain tr va where p: "p = (tr, va)" by (cases p)
    show ?thesis
      using ok Inr p to_json_no_assert
      by (auto simp: split_dataset_def Let_def split: prod.splits sum.splits)
         (metis fst_conv)+
  qed
  from fail pass show ?thesis
    by (metis fst_conv snd_conv not_le_imp_less)
qed

section \<open>What the notebook writes\<close>

lemma fields_records: "r \<in> set (records df) \<Longrightarrow> field_names r = columns df"
  by (auto simp: records_def record_at_def field_names_def columns_def split_def o_def)

lemma columns_mask_rows: "columns (mask_rows keep df) = columns df"
  by (simp add: mask_rows_def columns_iloc)

lemma columns_setitem_scalar:
  "c \<in> set (columns df) \<Longrightarrow> columns (setitem_scalar c v df) = columns df"
  by (simp add: setitem_scalar_def columns_setitem)

lemma Modify_columns: "Modify f c df = Inr df' \<Longrightarrow> columns df' = columns df"
  by (auto simp: Modify_def getitem_def columns_setitem split: option.splits sum.splits
           dest: map_of_columns)

lemma ScoreFilter_columns: "ScoreFilter flt c df = Inr df' \<Longrightarrow> columns df' = columns df"
  by (auto simp: ScoreFilter_def columns_mask_rows split: sum.splits)

lemma drop_columns_columns:
  "drop_columns cs df = Inr df' \<Longrightarrow> columns df' = filter (\<lambda>c. c \<notin> set cs) (columns df)"
  by (auto simp: drop_columns_def columns_filter split: list.splits)

lemma run_curation_pipeline_columns:
  assumes "run_curation_pipeline U raw = Inr cur"
  shows "columns cur = filter (\<lambda>c. c \<notin> set [''answer'', ''answer_score'', ''question_score''])
                         (columns raw)"
proof -
  from assms obtain ds where
    steps: "cpu_curation_steps U raw = Inr ds"
    and dr: "drop_columns [''answer'', ''answer_score'', ''question_score''] ds = Inr cur"
    by (auto simp: run_curation_pipeline_def split: sum.splits)
  from steps obtain d1 d2 d3 where
    "Modify U ''title'' raw = Inr d1" "Modify U ''question'' d1 = Inr d2"
    "word_count_stage d2 = Inr d3" "low_score_stage d3 = Inr ds"
    by (auto simp: cpu_curation_steps_def split: sum.splits)
  then have "columns ds = columns raw"
    by (auto simp: word_count_stage_def low_score_stage_def
             dest!: Modify_columns ScoreFilter_columns)
  with drop_columns_columns [OF dr] show ?thesis by simp
qed

lemma format_dataset_parts:
  assumes run: "format_dataset df fn = Inr out"
  obtains inp outp df4 df5 where
    "drop_columns [''title'', ''question'']
       (setitem_scalar ''filename'' (Str fn) (setitem ''output'' outp (setitem ''input'' inp df)))
     = Inr df4"
    "(if ''tags'' \<in> set (columns df) then drop_columns [''tags''] df4 else Inr df4) = Inr df5"
    "out = from_pandas df5"
  using run by (auto simp: format_dataset_def Let_def split: sum.splits)

lemma format_dataset_shape:
  assumes run: "format_dataset df fn = Inr out"
      and cs: "set (columns df) \<subseteq> {''title'', ''question'', ''tags''}"
  shows "columns out = [''input'', ''output'', ''filename'']"
proof -
  from run obtain inp outp df4 df5 where
    d4: "drop_columns [''title'', ''question'']
           (setitem_scalar ''filename'' (Str fn) (setitem ''output'' outp (setitem ''input'' inp df)))
         = Inr df4"
    and fin: "(if ''tags'' \<in> set (columns df) then drop_columns [''tags''] df4 else Inr df4) = Inr df5"
    and out: "out = from_pandas df5"
    by (rule format_dataset_parts)
  have c3: "columns (setitem_scalar ''filename'' (Str fn) (setitem ''output'' outp (setitem ''input'' inp df)))
            = columns df @ [''input'', ''output'', ''filename'']"
    using cs by (auto simp: setitem_scalar_def columns_setitem)
  have c4: "columns df4 = filter (\<lambda>c. c \<notin> set [''title'', ''question'']) (columns df)
                            @ [''input'', ''output'', ''filename'']"
    using drop_columns_columns [OF d4] by (simp add: c3)
  have "columns df5 = [''input'', ''output'', ''filename'']"
  proof (cases "''tags'' \<in> set (columns df)")
    case True
    with fin have dr: "drop_columns [''tags''] df4 = Inr df5" by simp
    have "filter (\<lambda>c. c \<noteq> ''tags'') (filter (\<lambda>c. c \<notin> set [''title'', ''question'']) (columns df)) = []"
      using cs by (auto simp: filter_empty_conv)
    with drop_columns_columns [OF dr] show ?thesis
      by (simp add: c4)
  next
    case False
    with fin have "df5 = df4" by simp
    moreover have "filter (\<lambda>c. c \<notin> set [''title'', ''question'']) (columns df) = []"
      using cs False by (auto simp: filter_empty_conv)
    ultimately show ?thesis using c4 by simp
  qed
  then show ?thesis by (simp add: out columns_from_pandas)
qed

lemma foldl_jsonl_changed:
  assumes "jsonl (foldl (\<lambda>d' n. d'\<lparr>jsonl := (jsonl d')(g n \<mapsto> h n)\<rparr>) d names) p = Some fr"
      and "jsonl d p \<noteq> Some fr"
  shows "\<exists>n \<in> set names. p = g n \<and> fr = h n"
  using assms
proof (induction names arbitrary: d)
  case Nil
  then show ?case by simp
next
  case (Cons n names)
  let ?d = "d\<lparr>jsonl := (jsonl d)(g n \<mapsto> h n)\<rparr>"
  have run: "jsonl (foldl (\<lambda>d' n. d'\<lparr>jsonl := (jsonl d')(g n \<mapsto> h n)\<rparr>) ?d names) p = Some fr"
    using Cons.prems(1) by (simp only: foldl_Cons)
  show ?case
  proof (cases "jsonl ?d p = Some fr")
    case True
    with Cons.prems(2) have "p = g n \<and> fr = h n"
      by (cases "p = g n") simp_all
    then show ?thesis by simp
  next
    case False
    from Cons.IH [OF run False] show ?thesis by auto
  qed
qed

lemma map_res_cell_str: "map_res cell_str xs = Inr names \<Longrightarrow> xs = map Str names"
  by (induction xs arbitrary: names) (auto simp: cell_str_def split: sum.splits cell.splits)

lemma to_json_changed:
  assumes run: "to_json df dir d = (res, d')"
      and p: "jsonl d' p = Some f" "jsonl d p \<noteq> Some f"
      and fn: "map_of (cols df) ''filename'' = Some fns"
  shows "columns f = columns df \<and> (\<exists>name. Str name \<in> set fns \<and> p = dir @ ''/'' @ name)"
proof (cases "map_res cell_str (remdups fns)")
  case (Inl e)
  with run fn p show ?thesis by (simp add: to_json_def getitem_def)
next
  case (Inr names)
  with run fn have d': "d' = foldl (\<lambda>d' n. d'\<lparr>jsonl := (jsonl d')(dir @ ''/'' @ n \<mapsto>
                                   mask_rows (map (\<lambda>x. x = Str n) fns) df)\<rparr>) d names"
    by (simp add: to_json_def getitem_def)
  from foldl_jsonl_changed [OF p(1) [unfolded d'] p(2)] obtain n where
    n: "n \<in> set names" "p = dir @ ''/'' @ n" "f = mask_rows (map (\<lambda>x. x = Str n) fns) df"
    by blast
  from map_res_cell_str [OF Inr] n(1) have "Str n \<in> set fns"
    by (metis image_eqI list.set_map set_remdups)
  with n show ?thesis by (auto simp: columns_mask_rows)
qed

lemma path_neq:
  "(DD @ ''/curated_dataset'') @ ''/'' @ ''law-stackexchange-curated.jsonl'' \<noteq> submission_ds"
  "(DD @ ''/split'') @ ''/'' @ ''train.jsonl'' \<noteq> submission_ds"
  "(DD @ ''/split'') @ ''/'' @ ''val.jsonl'' \<noteq> submission_ds"
proof -
  have r: "\<And>a b :: string. a = b \<longleftrightarrow> rev a = rev b" by simp
  show "(DD @ ''/curated_dataset'') @ ''/'' @ ''law-stackexchange-curated.jsonl'' \<noteq> submission_ds"
    by (subst r) (simp add: submission_ds_def)
  show "(DD @ ''/split'') @ ''/'' @ ''train.jsonl'' \<noteq> submission_ds"
    by (subst r) (simp add: submission_ds_def)
  show "(DD @ ''/split'') @ ''/'' @ ''val.jsonl'' \<noteq> submission_ds"
    by (subst r) (simp add: submission_ds_def)
qed

lemma map_of_setitem_scalar:
  "map_of (cols (setitem_scalar c v df)) c = Some (replicate (len_df df) v)"
  by (simp add: setitem_scalar_def setitem_def update_conv)

lemma format_dataset_filename:
  assumes run: "format_dataset df fn = Inr out"
  shows "map_of (cols out) ''filename'' = Some (replicate (len_df df) (Str fn))"
proof -
  from run obtain inp outp df4 df5 where
    d4: "drop_columns [''title'', ''question'']
           (setitem_scalar ''filename'' (Str fn) (setitem ''output'' outp (setitem ''input'' inp df)))
         = Inr df4"
    and fin: "(if ''tags'' \<in> set (columns df) then drop_columns [''tags''] df4 else Inr df4) = Inr df5"
    and out: "out = from_pandas df5"
    by (rule format_dataset_parts)
  have f4: "map_of (cols df4) ''filename'' = Some (replicate (len_df df) (Str fn))"
    using d4
    by (auto simp: drop_columns_def map_of_filter_keys map_of_setitem_scalar split: list.splits)
       (simp add: setitem_def len_df_def)
  have l4: "len_df df4 = len_df df"
    using d4 by (auto simp: drop_columns_def setitem_scalar_def setitem_def len_df_def split: list.splits)
  have f5: "map_of (cols df5) ''filename'' = Some (replicate (len_df df) (Str fn))"
  proof (cases "''tags'' \<in> set (columns df)")
    case True
    with fin have dr: "drop_columns [''tags''] df4 = Inr df5" by simp
    then show ?thesis
      using f4 by (auto simp: drop_columns_def map_of_filter_keys split: list.splits)
  next
    case False
    with fin f4 show ?thesis by simp
  qed
  have l5: "len_df df5 = len_df df"
  proof (cases "''tags'' \<in> set (columns df)")
    case True
    with fin have dr: "drop_columns [''tags''] df4 = Inr df5" by simp
    with l4 show ?thesis
      by (auto simp: drop_columns_def len_df_def split: list.splits)
  next
    case False
    with fin l4 show ?thesis by simp
  qed
  from from_pandas_replicate [of df5 "''filename''" "Str fn"] f5 l5 show ?thesis
    by (simp add: out)
qed

lemma map_of_tagged:
  "map_of (cols (from_pandas (setitem_scalar c v df))) c = Some (replicate (len_df df) v)"
proof -
  have l: "len_df (setitem_scalar c v df) = len_df df"
    by (simp add: setitem_scalar_def setitem_def len_df_def)
  from from_pandas_replicate [of "setitem_scalar c v df" c v] show ?thesis
    by (simp add: l map_of_setitem_scalar)
qed

lemma to_json_tagged_changed:
  assumes run: "to_json df dir d = (res, d')"
      and p: "jsonl d' p = Some f" "jsonl d p \<noteq> Some f"
      and fn: "map_of (cols df) ''filename'' = Some (replicate n (Str name))"
  shows "columns f = columns df \<and> p = dir @ ''/'' @ name"
  using to_json_changed [OF run p fn] by auto

lemma split_dataset_changed:
  assumes run: "split_dataset fl perm DD df v d = (res, d')"
      and p: "jsonl d' p = Some f" "jsonl d p \<noteq> Some f"
      and fn: "''filename'' \<in> set (columns df)"
  shows "columns f = columns df \<and>
         (p = (DD @ ''/split'') @ ''/'' @ ''train.jsonl'' \<or> p = (DD @ ''/split'') @ ''/'' @ ''val.jsonl'')"
proof -
  let ?dir = "DD @ ''/split''"
  let ?d1 = "makedirs ?dir d"
  have ok: "0 < len_df df" "0 \<le> v \<and> v \<le> 1"
    using run p by (auto simp: split_dataset_def split: if_splits)
  have j1: "jsonl ?d1 = jsonl d" by (simp add: makedirs_def)
  show ?thesis
  proof (cases "split_frames fl perm df v")
    case (Inl e)
    with run ok have "d' = ?d1" by (simp add: split_dataset_def Let_def)
    with p j1 show ?thesis by simp
  next
    case (Inr pr)
    obtain tr va where pr: "pr = (tr, va)" by (cases pr)
    let ?tr = "from_pandas (setitem_scalar ''filename'' (Str ''train.jsonl'') tr)"
    let ?va = "from_pandas (setitem_scalar ''filename'' (Str ''val.jsonl'') va)"
    from Inr pr have "tr = iloc (take (len_df df - nat (val_size fl (len_df df) v))
                            (drop (nat (val_size fl (len_df df) v)) perm)) df"
        "va = iloc (take (nat (val_size fl (len_df df) v)) perm) df"
      unfolding split_frames_def by (auto dest: train_test_split_Inr)
    then have ctr: "columns ?tr = columns df" and cva: "columns ?va = columns df"
      using fn by (simp_all add: columns_from_pandas columns_setitem_scalar columns_iloc)
    obtain r2 d2 where t2: "to_json ?tr ?dir ?d1 = (r2, d2)" by (cases "to_json ?tr ?dir ?d1")
    have first: "columns f = columns df \<and> p = ?dir @ ''/'' @ ''train.jsonl''"
      if "jsonl d2 p = Some f"
      using to_json_tagged_changed [OF t2 that _ map_of_tagged] p(2) j1 ctr by simp
    show ?thesis
    proof (cases r2)
      case (Inl e)
      with run ok Inr pr t2 have "d' = d2" by (simp add: split_dataset_def Let_def)
      with p first show ?thesis by simp
    next
      case r: (Inr u)
      with run ok Inr pr t2 have t3: "to_json ?va ?dir d2 = (res, d')"
        by (simp add: split_dataset_def Let_def)
      show ?thesis
      proof (cases "jsonl d2 p = Some f")
        case True
        with first show ?thesis by simp
      next
        case False
        from to_json_tagged_changed [OF t3 p(1) False map_of_tagged] cva
        show ?thesis by simp
      qed
    qed
  qed
qed

lemma prepare_submission_changed:
  assumes run: "prepare_submission DD d = (res, d')"
      and p: "jsonl d' p = Some f" "jsonl d p \<noteq> Some f"
      and sub: "\<And>s. jsonl d submission_ds = Some s \<Longrightarrow> set (columns s) \<subseteq> {''title'', ''question'', ''tags''}"
  shows "columns f = [''input'', ''output'', ''filename''] \<and>
         p = (DD @ ''/split'') @ ''/'' @ ''submission.jsonl''"
proof (cases "jsonl d submission_ds")
  case None
  with run p show ?thesis by (simp add: prepare_submission_def)
next
  case (Some ds)
  show ?thesis
  proof (cases "format_dataset ds ''submission.jsonl''")
    case (Inl e)
    with run Some p show ?thesis by (simp add: prepare_submission_def)
  next
    case (Inr ds')
    with run Some have t: "to_json ds' (DD @ ''/split'') d = (res, d')"
      by (simp add: prepare_submission_def)
    from format_dataset_shape [OF Inr sub [OF Some]]
    have c: "columns ds' = [''input'', ''output'', ''filename'']" .
    from to_json_tagged_changed [OF t p format_dataset_filename [OF Inr]] c
    show ?thesis by simp
  qed
qed

text \<open>
  C6. Let the raw dataset have the six fields \<open>title\<close>, \<open>question\<close>, \<open>answer\<close>,
  \<open>tags\<close>, \<open>question_score\<close> and \<open>answer_score\<close>, and the submission dataset the
  fields \<open>title\<close> and \<open>question\<close>. Then every file that a run of the notebook writes,
  whether the run completes or stops at an exception, is one of
  \<open>law-stackexchange-curated.jsonl\<close>, \<open>train.jsonl\<close>, \<open>val.jsonl\<close> and
  \<open>submission.jsonl\<close>, and every record in it has exactly the three fields \<open>input\<close>,
  \<open>output\<close> and \<open>filename\<close>.
\<close>

theorem C6_persisted_fields:
  assumes run: "curation_notebook U fl perm DD raw v d = (res, d')"
      and raw: "set (columns raw) = {''title'', ''question'', ''answer'', ''tags'',
                                     ''question_score'', ''answer_score''}"
      and sub: "\<forall>s. jsonl d submission_ds = Some s \<longrightarrow> set (columns s) = {''title'', ''question''}"
      and p: "jsonl d' p = Some f" "jsonl d p \<noteq> Some f"
  shows "columns f = [''input'', ''output'', ''filename''] \<and>
         (\<forall>r \<in> set (records f). field_names r = [''input'', ''output'', ''filename'']) \<and>
         p \<in> {DD @ ''/curated_dataset/law-stackexchange-curated.jsonl'',
              DD @ ''/split/train.jsonl'', DD @ ''/split/val.jsonl'',
              DD @ ''/split/submission.jsonl''}"
proof -
  define P1 where "P1 = (DD @ ''/curated_dataset'') @ ''/'' @ ''law-stackexchange-curated.jsonl''"
  define P2 where "P2 = (DD @ ''/split'') @ ''/'' @ ''train.jsonl''"
  define P3 where "P3 = (DD @ ''/split'') @ ''/'' @ ''val.jsonl''"
  define P4 where "P4 = (DD @ ''/split'') @ ''/'' @ ''submission.jsonl''"
  define C where "C = [''input'', ''output'', ''filename'']"
  have neq: "P1 \<noteq> submission_ds" "P2 \<noteq> submission_ds" "P3 \<noteq> submission_ds"
    unfolding P1_def P2_def P3_def by (rule path_neq)+
  let ?d0 = "makedirs DD d"
  have j0: "jsonl ?d0 = jsonl d" by (simp add: makedirs_def)
  have main: "columns f = C \<and> p \<in> {P1, P2, P3, P4}"
  proof (cases "run_curation_pipeline U (from_pandas raw)")
    case (Inl e)
    with run have "d' = ?d0" by (simp add: curation_notebook_def Let_def)
    with p j0 show ?thesis by simp
  next
    case (Inr cur)
    from run_curation_pipeline_columns [OF Inr] raw
    have ccur: "set (columns cur) \<subseteq> {''title'', ''question'', ''tags''}"
      by (auto simp: columns_from_pandas)
    show ?thesis
    proof (cases "format_dataset cur ''law-stackexchange-curated.jsonl''")
      case (Inl e)
      with run Inr have "d' = ?d0" by (simp add: curation_notebook_def Let_def)
      with p j0 show ?thesis by simp
    next
      case fm: (Inr fm)
      from format_dataset_shape [OF fm ccur]
      have cfm: "columns fm = C" by (simp add: C_def)
      then have fnc: "''filename'' \<in> set (columns fm)" by (simp add: C_def)
      obtain r1 d1 where t1: "to_json fm (DD @ ''/curated_dataset'') ?d0 = (r1, d1)"
        by (cases "to_json fm (DD @ ''/curated_dataset'') ?d0")
      have s1: "columns f' = C \<and> p' = P1"
        if c: "jsonl d1 p' = Some f'" "jsonl d p' \<noteq> Some f'" for p' f'
      proof -
        from c(2) j0 have "jsonl ?d0 p' \<noteq> Some f'" by simp
        from to_json_tagged_changed [OF t1 c(1) this format_dataset_filename [OF fm]]
        show ?thesis unfolding P1_def cfm .
      qed
      show ?thesis
      proof (cases r1)
        case (Inl e)
        with run Inr fm t1 have "d' = d1" by (simp add: curation_notebook_def Let_def)
        with p s1 show ?thesis by blast
      next
        case r1: (Inr u1)
        obtain r2 d2 where t2: "split_dataset fl perm DD fm v d1 = (r2, d2)"
          by (cases "split_dataset fl perm DD fm v d1")
        have s2: "columns f' = C \<and> p' \<in> {P1, P2, P3}"
          if c: "jsonl d2 p' = Some f'" "jsonl d p' \<noteq> Some f'" for p' f'
        proof (cases "jsonl d1 p' = Some f'")
          case True
          with s1 c(2) show ?thesis by blast
        next
          case False
          from split_dataset_changed [OF t2 c(1) False fnc]
          show ?thesis unfolding P2_def P3_def cfm by blast
        qed
        show ?thesis
        proof (cases r2)
          case (Inl e)
          with run Inr fm t1 r1 t2 have "d' = d2" by (simp add: curation_notebook_def Let_def)
          with p s2 show ?thesis by blast
        next
          case r2: (Inr u2)
          with run Inr fm t1 r1 t2 have t3: "prepare_submission DD d2 = (res, d')"
            by (simp add: curation_notebook_def Let_def)
          have sub2: "set (columns s) \<subseteq> {''title'', ''question'', ''tags''}"
            if s: "jsonl d2 submission_ds = Some s" for s
          proof (cases "jsonl d submission_ds = Some s")
            case True
            with sub have "set (columns s) = {''title'', ''question''}" by blast
            then show ?thesis by blast
          next
            case False
            from s2 [OF s False] neq show ?thesis by blast
          qed
          show ?thesis
          proof (cases "jsonl d2 p = Some f")
            case True
            from s2 [OF True p(2)] show ?thesis by blast
          next
            case False
            from prepare_submission_changed [OF t3 p(1) False sub2]
            show ?thesis unfolding P4_def C_def by blast
          qed
        qed
      qed
    qed
  qed
  have paths: "P1 = DD @ ''/curated_dataset/law-stackexchange-curated.jsonl''"
    "P2 = DD @ ''/split/train.jsonl''" "P3 = DD @ ''/split/val.jsonl''"
    "P4 = DD @ ''/split/submission.jsonl''"
    by (simp_all add: P1_def P2_def P3_def P4_def)
  from main have "columns f = [''input'', ''output'', ''filename'']"
    by (simp add: C_def)
  moreover from this have "\<forall>r \<in> set (records f). field_names r = [''input'', ''output'', ''filename'']"
    by (simp add: fields_records)
  moreover from main have "p \<in> {DD @ ''/curated_dataset/law-stackexchange-curated.jsonl'',
              DD @ ''/split/train.jsonl'', DD @ ''/split/val.jsonl'',
              DD @ ''/split/submission.jsonl''}"
    unfolding paths by (rule conjunct2)
  ultimately show ?thesis by blast
qed

section \<open>Worked examples\<close>

lemma split_acc_word: "split_acc [] (''w '' @ s) = ''w'' # split_acc [] s"
  by (simp add: is_space_def)

lemma word_count_text_of_words: "word_count (text_of_words n) = int n"
proof -
  have "length (split_acc [] (concat (replicate n ''w ''))) = n"
  proof (induction n)
    case 0
    show ?case by simp
  next
    case (Suc n)
    have "concat (replicate (Suc n) ''w '') = ''w '' @ concat (replicate n ''w '')" by simp
    then show ?case using Suc by (simp only: split_acc_word list.size length_Cons) 
  qed
  then show ?thesis by (simp add: word_count_def split_words_def text_of_words_def)
qed

lemma len_seven: "len_df seven_df = 7"
  by (simp add: seven_df_def len_df_def)

lemma val_size_seven: "val_size id 7 (1/4) = 1"
  by (simp add: val_size_def py_int_def floor_eq_iff)

lemma split_seven:
  "split_frames id [3, 0, 6, 1, 5, 2, 4] seven_df (1/4)
     = Inr (iloc [0, 6, 1, 5, 2, 4] seven_df, iloc [3] seven_df)"
  by (simp add: split_frames_def train_test_split_def len_seven val_size_seven Let_def)

text \<open>
  C1 as stated, with \<open>round(N * v)\<close>, fails. On seven records with ratio \<open>1/4\<close> the
  product \<open>7 * 0.25 = 1.75\<close> is exact in floating point; the validation partition has
  one record, and \<open>round(1.75) = 2\<close>.
\<close>

theorem C1_round_counterexample:
  "split_frames id [3, 0, 6, 1, 5, 2, 4] seven_df (1/4)
     = Inr (iloc [0, 6, 1, 5, 2, 4] seven_df, iloc [3] seven_df) \<and>
   len_df (iloc [3] seven_df) = 1 \<and>
   nat (round (of_nat (len_df seven_df) * (1/4) :: rat)) = 2"
proof -
  have "round (7 * (1/4) :: rat) = 2"
    by (simp add: round_def floor_eq_iff)
  with split_seven show ?thesis
    by (simp add: len_df_iloc len_seven)
qed

text \<open>The theorem for C1 at a concrete input.\<close>

theorem C1_split_sizes_witness:
  "length [3, 0, 6, 1, 5, 2, 4] = len_df seven_df \<and>
   0 < val_size id (len_df seven_df) (1/4) \<and>
   val_size id (len_df seven_df) (1/4) < int (len_df seven_df) \<and>
   (\<exists>tr va. split_frames id [3, 0, 6, 1, 5, 2, 4] seven_df (1/4) = Inr (tr, va) \<and>
      len_df va = 1 \<and> len_df tr = 6)"
proof -
  have h: "length [3, 0, 6, 1, 5, 2, 4 :: nat] = len_df seven_df"
    by (simp add: len_seven)
  have k: "val_size id (len_df seven_df) (1/4) = 1"
    by (simp add: len_seven val_size_seven)
  from C1_split_sizes [OF h, of id "1/4"] k obtain tr va where
    "split_frames id [3, 0, 6, 1, 5, 2, 4] seven_df (1/4) = Inr (tr, va)"
    "int (len_df va) = py_int (id (of_nat (len_df seven_df) * (1/4)))"
    "len_df tr = len_df seven_df - len_df va"
    by (auto simp: len_seven)
  moreover from this k have "len_df va = 1"
    by (simp add: val_size_def)
  ultimately have "\<exists>tr va. split_frames id [3, 0, 6, 1, 5, 2, 4] seven_df (1/4) = Inr (tr, va) \<and>
      len_df va = 1 \<and> len_df tr = 6"
    by (auto simp: len_seven)
  with h k show ?thesis by (simp add: len_seven)
qed

text \<open>The theorem for C5 at a concrete input.\<close>

theorem C5_split_disjoint_exhaustive_witness:
  "mset [3, 0, 6, 1, 5, 2, 4] = mset [0..<len_df seven_df] \<and>
   distinct (idx seven_df) \<and>
   mset (records (iloc [0, 6, 1, 5, 2, 4] seven_df)) + mset (records (iloc [3] seven_df))
     = mset (records seven_df) \<and>
   set (idx (iloc [0, 6, 1, 5, 2, 4] seven_df)) \<inter> set (idx (iloc [3] seven_df)) = {}"
proof -
  have m: "mset [3, 0, 6, 1, 5, 2, 4] = mset [0..<len_df seven_df]"
    by (simp add: len_seven upt_rec eval_nat_numeral)
  have d: "distinct (idx seven_df)"
    by (simp add: seven_df_def)
  from C5_split_disjoint_exhaustive [OF split_seven m] d m show ?thesis by blast
qed

text \<open>The theorem for C8 at a concrete input.\<close>

theorem C8_split_asserts_witness:
  "\<not> 0 < len_df empty_df \<and> \<not> (0 \<le> (3/2 :: rat) \<and> (3/2 :: rat) \<le> 1) \<and>
   snd (split_dataset id [] ''/nb/data'' empty_df (1/20) example_disk) = example_disk \<and>
   snd (split_dataset id [3, 0, 6, 1, 5, 2, 4] ''/nb/data'' seven_df (3/2) example_disk) = example_disk \<and>
   (\<exists>msg. fst (split_dataset id [] ''/nb/data'' empty_df (1/20) example_disk) = Inl (AssertionError msg)) \<and>
   (\<exists>msg. fst (split_dataset id [3, 0, 6, 1, 5, 2, 4] ''/nb/data'' seven_df (3/2) example_disk)
            = Inl (AssertionError msg))"
proof -
  have e: "\<not> 0 < len_df empty_df" by (simp add: empty_df_def len_df_def)
  have r: "\<not> (0 \<le> (3/2 :: rat) \<and> (3/2 :: rat) \<le> 1)" by simp
  from C8_split_asserts [of id "[]" "''/nb/data''" empty_df "1/20" example_disk]
       C8_split_asserts [of id "[3, 0, 6, 1, 5, 2, 4]" "''/nb/data''" seven_df "3/2" example_disk]
       e r
  show ?thesis by blast
qed

lemma sub_wf: "wf_df example_submission"
  by (simp add: wf_df_def example_submission_def columns_def len_df_def)

lemma sub_text:
  "text_column example_submission ''title''" "text_column example_submission ''question''"
  by (simp_all add: text_column_def example_submission_def)

lemma un_wf: "wf_df unordered_df"
  by (simp add: wf_df_def unordered_df_def columns_def len_df_def)

lemma un_text: "text_column unordered_df ''title''" "text_column unordered_df ''question''"
  by (simp_all add: text_column_def unordered_df_def)

lemma un_order: "label_order unordered_df = [1, 2, 0]"
  by (simp add: label_order_def unordered_df_def len_df_def upt_rec)

lemma un_len: "len_df unordered_df = 3"
  by (simp add: unordered_df_def len_df_def)

text \<open>The theorem for C10 at a concrete input.\<close>

theorem C10_input_is_prompt_title_question_witness:
  "wf_df unordered_df \<and> text_column unordered_df ''title'' \<and>
   text_column unordered_df ''question'' \<and>
   (\<exists>out. format_dataset unordered_df ''submission.jsonl'' = Inr out \<and>
      fst (record_at out 0) = 0 \<and>
      field (record_at out 0) ''input'' =
        Some (Str (SYSTEM_PROMPT @ ''TITLE:\<newline>b\<newline>\<newline>QUESTION:\<newline>qb'')))"
proof -
  from C10_input_is_prompt_title_question [OF un_wf un_text, of "''submission.jsonl''"]
  obtain out where out: "format_dataset unordered_df ''submission.jsonl'' = Inr out"
    and rows: "\<forall>i<len_df unordered_df.
        fst (record_at out i) = fst (record_at unordered_df (label_order unordered_df ! i)) \<and>
        (\<forall>t q.
           field (record_at unordered_df (label_order unordered_df ! i)) ''title'' = Some (Str t) \<and>
           field (record_at unordered_df (label_order unordered_df ! i)) ''question'' = Some (Str q) \<longrightarrow>
           field (record_at out i) ''input'' =
             Some (Str (SYSTEM_PROMPT @ ''TITLE:\<newline>'' @ t @ ''\<newline>\<newline>QUESTION:\<newline>'' @ q)))"
    by (elim exE conjE)
  have src: "fst (record_at unordered_df 1) = 0"
    "field (record_at unordered_df 1) ''title'' = Some (Str ''b'')"
    "field (record_at unordered_df 1) ''question'' = Some (Str ''qb'')"
    by (simp_all add: unordered_df_def field_def record_at_def)
  from rows have r0: "fst (record_at out 0) = fst (record_at unordered_df 1) \<and>
        (\<forall>t q.
           field (record_at unordered_df 1) ''title'' = Some (Str t) \<and>
           field (record_at unordered_df 1) ''question'' = Some (Str q) \<longrightarrow>
           field (record_at out 0) ''input'' =
             Some (Str (SYSTEM_PROMPT @ ''TITLE:\<newline>'' @ t @ ''\<newline>\<newline>QUESTION:\<newline>'' @ q)))"
    by (simp add: un_len un_order)
  with src have "fst (record_at out 0) = 0"
    "field (record_at out 0) ''input'' =
        Some (Str (SYSTEM_PROMPT @ ''TITLE:\<newline>'' @ ''b'' @ ''\<newline>\<newline>QUESTION:\<newline>'' @ ''qb''))"
    by simp_all
  with out un_wf un_text show ?thesis by simp
qed

lemma ex_wf: "wf_df example_df"
  by (simp add: wf_df_def example_df_def columns_def len_df_def)

lemma ex_text: "text_column example_df ''title''" "text_column example_df ''question''"
  by (simp_all add: text_column_def example_df_def)

lemma ex_num: "num_column example_df ''question_score''"
  by (simp add: num_column_def example_df_def)

text \<open>The theorem for C2 at a concrete input.\<close>

theorem C2_formatting_total_witness:
  "wf_df example_submission \<and> text_column example_submission ''title'' \<and>
   text_column example_submission ''question'' \<and>
   (\<exists>out. format_dataset example_submission ''submission.jsonl'' = Inr out \<and>
      field (record_at out 0) ''output'' = Some (Str [])) \<and>
   wf_df unordered_df \<and> text_column unordered_df ''title'' \<and> text_column unordered_df ''question'' \<and>
   (\<exists>out. format_dataset unordered_df ''law-stackexchange-curated.jsonl'' = Inr out \<and>
      sorted (idx out) \<and> mset (idx out) = mset [2, 0, 1] \<and>
      fst (record_at out 0) = 0 \<and> field (record_at out 0) ''output'' = Some (Str ''tb''))"
proof -
  from C2_formatting_total [OF sub_wf sub_text, of "''submission.jsonl''"]
  obtain out where out: "format_dataset example_submission ''submission.jsonl'' = Inr out"
    and outp: "\<forall>i<len_df example_submission. field (record_at out i) ''output'' =
         (if ''tags'' \<in> set (columns example_submission)
          then field (record_at example_submission (label_order example_submission ! i)) ''tags''
          else Some (Str []))"
    by (elim exE conjE)
  from outp have "field (record_at out 0) ''output'' = Some (Str [])"
    by (simp add: example_submission_def len_df_def columns_def)
  with out have a: "\<exists>out. format_dataset example_submission ''submission.jsonl'' = Inr out \<and>
      field (record_at out 0) ''output'' = Some (Str [])"
    by blast
  from C2_formatting_total [OF un_wf un_text, of "''law-stackexchange-curated.jsonl''"]
  obtain out' where out': "format_dataset unordered_df ''law-stackexchange-curated.jsonl'' = Inr out'"
      "sorted (idx out')" "mset (idx out') = mset (idx unordered_df)"
    and lab': "\<forall>i<len_df unordered_df.
         fst (record_at out' i) = fst (record_at unordered_df (label_order unordered_df ! i))"
    and outp': "\<forall>i<len_df unordered_df. field (record_at out' i) ''output'' =
         (if ''tags'' \<in> set (columns unordered_df)
          then field (record_at unordered_df (label_order unordered_df ! i)) ''tags''
          else Some (Str []))"
    by (elim exE conjE)
  from lab' have "fst (record_at out' 0) = fst (record_at unordered_df 1)"
    by (simp add: un_len un_order)
  then have l0: "fst (record_at out' 0) = 0"
    by (simp add: unordered_df_def record_at_def)
  from outp' have "field (record_at out' 0) ''output'' =
         (if ''tags'' \<in> set (columns unordered_df)
          then field (record_at unordered_df 1) ''tags'' else Some (Str []))"
    by (simp add: un_len un_order)
  then have o0: "field (record_at out' 0) ''output'' = Some (Str ''tb'')"
    by (simp add: unordered_df_def columns_def field_def record_at_def)
  from out'(3) have "mset (idx out') = mset [2, 0, 1]"
    by (simp add: unordered_df_def)
  with out'(1,2) l0 o0
  have b: "\<exists>out. format_dataset unordered_df ''law-stackexchange-curated.jsonl'' = Inr out \<and>
      sorted (idx out) \<and> mset (idx out) = mset [2, 0, 1] \<and>
      fst (record_at out 0) = 0 \<and> field (record_at out 0) ''output'' = Some (Str ''tb'')"
    by blast
  from a b sub_wf sub_text un_wf un_text show ?thesis by blast
qed

text \<open>The theorem for C3 at a concrete input.\<close>

theorem C3_word_count_bounds_witness:
  "wf_df example_df \<and> text_column example_df ''question'' \<and>
   (\<exists>out. word_count_stage example_df = Inr out \<and> map fst (records out) = [1, 2, 3])"
proof -
  from C3_word_count_bounds [OF ex_wf ex_text(2)]
  obtain out where "word_count_stage example_df = Inr out"
    "records out = filter within_word_bounds (records example_df)"
    by blast
  moreover have "map fst (filter within_word_bounds (records example_df)) = [1, 2, 3]"
    by (simp add: records_def record_at_def example_df_def len_df_def within_word_bounds_def
          field_def word_count_text_of_words upt_rec)
  ultimately show ?thesis using ex_wf ex_text(2) by simp
qed

text \<open>The theorem for C4 at a concrete input.\<close>

theorem C4_score_threshold_witness:
  "wf_df example_df \<and> num_column example_df ''question_score'' \<and>
   (\<exists>out. low_score_stage example_df = Inr out \<and> map fst (records out) = [0, 2, 3])"
proof -
  from C4_score_threshold [OF ex_wf ex_num]
  obtain out where "low_score_stage example_df = Inr out"
    "records out = filter score_non_negative (records example_df)"
    by blast
  moreover have "map fst (filter score_non_negative (records example_df)) = [0, 2, 3]"
    by (simp add: records_def record_at_def example_df_def len_df_def score_non_negative_def
          field_def upt_rec)
  ultimately show ?thesis using ex_wf ex_num by simp
qed

lemma from_pandas_sorted:
  assumes wf: "wf_df df" and s: "sorted (idx df)"
  shows "from_pandas df = df"
proof -
  have "sorted (map (\<lambda>i. idx df ! i) [0..<length (idx df)])"
    using s by (simp only: map_nth)
  then have lo: "label_order df = [0..<len_df df]"
    unfolding label_order_def len_df_def by (rule sort_key_id_if_sorted)
  have "map (\<lambda>(c, xs). (c, map (\<lambda>i. xs ! i) [0..<len_df df])) (cols df) = map (\<lambda>p. p) (cols df)"
  proof (rule map_cong [OF refl])
    fix p assume p: "p \<in> set (cols df)"
    obtain c xs where cx: "p = (c, xs)" by (cases p)
    with p wf have "length xs = len_df df"
      by (auto simp: wf_df_def list_all_iff)
    then have "map (\<lambda>i. xs ! i) [0..<len_df df] = xs"
      using map_nth [of xs] by simp
    with cx show "(case p of (c, xs) \<Rightarrow> (c, map (\<lambda>i. xs ! i) [0..<len_df df])) = p" by simp
  qed
  moreover have "map (\<lambda>i. idx df ! i) [0..<len_df df] = idx df"
    unfolding len_df_def by (rule map_nth)
  ultimately show ?thesis
    by (simp add: from_pandas_def lo iloc_def)
qed

lemma ex_raw: "from_pandas example_df = example_df"
  by (rule from_pandas_sorted) (simp_all add: wf_df_def example_df_def columns_def len_df_def)

lemma ex_curated: "run_curation_pipeline id example_df =
   Inr \<lparr>idx = [2, 3],
        cols = [(''title'', [Str ''Tenant rights'', Str ''Notice period'']),
                (''question'', [Str (text_of_words 200), Str (text_of_words 60)]),
                (''tags'', [Str ''contracts,leases'', Str ''employment''])]\<rparr>"
  by (simp add: run_curation_pipeline_def cpu_curation_steps_def Modify_def getitem_def example_df_def
       setitem_def word_count_stage_def low_score_stage_def ScoreFilter_def WordCountFilter_def
       FilterLowScores_def word_count_text_of_words mask_rows_def iloc_def len_df_def upt_rec
       drop_columns_def columns_def)

lemma ex_formatted:
  "format_dataset \<lparr>idx = [2, 3],
        cols = [(''title'', [Str ''Tenant rights'', Str ''Notice period'']),
                (''question'', [Str (text_of_words 200), Str (text_of_words 60)]),
                (''tags'', [Str ''contracts,leases'', Str ''employment''])]\<rparr>
      ''law-stackexchange-curated.jsonl'' =
   Inr \<lparr>idx = [2, 3],
        cols = [(''input'', [formatted_input ''Tenant rights'' (text_of_words 200),
                            formatted_input ''Notice period'' (text_of_words 60)]),
                (''output'', [Str ''contracts,leases'', Str ''employment'']),
                (''filename'', [Str ''law-stackexchange-curated.jsonl'',
                               Str ''law-stackexchange-curated.jsonl''])]\<rparr>"
  by (simp add: format_dataset_def Let_def columns_def getitem_def radd_str_def add_str_def
        add_series_def setitem_def setitem_scalar_def len_df_def drop_columns_def formatted_input_def
        from_pandas_sorted wf_df_def)

lemma ex_val_size: "val_size id (Suc (Suc 0)) (1/2) = 1"
  by (simp add: val_size_def py_int_def floor_eq_iff)

lemma ex_sub_formatted:
  "format_dataset example_submission ''submission.jsonl'' =
   Inr \<lparr>idx = [0],
        cols = [(''input'', [formatted_input ''Tenant rights'' ''May a landlord enter without notice?'']),
                (''output'', [Str []]),
                (''filename'', [Str ''submission.jsonl''])]\<rparr>"
  by (simp add: format_dataset_def Let_def columns_def getitem_def radd_str_def add_str_def
        add_series_def setitem_def setitem_scalar_def len_df_def drop_columns_def formatted_input_def
        example_submission_def from_pandas_sorted wf_df_def)

lemma ex_run:
  "jsonl (snd (curation_notebook id id [1, 0] ''/nb/data'' example_df (1/2) example_disk))
      ''/nb/data/split/val.jsonl'' =
   Some \<lparr>idx = [3],
         cols = [(''input'', [formatted_input ''Notice period'' (text_of_words 60)]),
                 (''output'', [Str ''employment'']),
                 (''filename'', [Str ''val.jsonl''])]\<rparr>"
  by (simp add: curation_notebook_def ex_raw ex_curated ex_formatted Let_def to_json_def getitem_def
        from_pandas_sorted wf_df_def columns_def
        cell_str_def split_dataset_def split_frames_def train_test_split_def ex_val_size
        len_df_def makedirs_def mask_rows_def iloc_def setitem_scalar_def setitem_def upt_rec
        prepare_submission_def example_disk_def submission_ds_def ex_sub_formatted)

text \<open>The theorem for C6 at a concrete input.\<close>

theorem C6_persisted_fields_witness:
  "set (columns example_df) = {''title'', ''question'', ''answer'', ''tags'',
                               ''question_score'', ''answer_score''} \<and>
   jsonl example_disk submission_ds = Some example_submission \<and>
   set (columns example_submission) = {''title'', ''question''} \<and>
   jsonl example_disk ''/nb/data/split/val.jsonl'' = None \<and>
   (\<exists>f. jsonl (snd (curation_notebook id id [1, 0] ''/nb/data'' example_df (1/2) example_disk))
           ''/nb/data/split/val.jsonl'' = Some f \<and>
        columns f = [''input'', ''output'', ''filename''] \<and>
        (\<forall>r \<in> set (records f). field_names r = [''input'', ''output'', ''filename'']))"
proof -
  have raw: "set (columns example_df) = {''title'', ''question'', ''answer'', ''tags'',
                               ''question_score'', ''answer_score''}"
    by (auto simp: example_df_def columns_def)
  have sub: "\<forall>s. jsonl example_disk submission_ds = Some s \<longrightarrow> set (columns s) = {''title'', ''question''}"
    by (auto simp: example_disk_def example_submission_def columns_def)
  have none: "jsonl example_disk ''/nb/data/split/val.jsonl'' = None"
    by (simp add: example_disk_def submission_ds_def)
  obtain res d' where
    run: "curation_notebook id id [1, 0] ''/nb/data'' example_df (1/2) example_disk = (res, d')"
    by (cases "curation_notebook id id [1, 0] ''/nb/data'' example_df (1/2) example_disk")
  let ?f = "\<lparr>idx = [3],
         cols = [(''input'', [formatted_input ''Notice period'' (text_of_words 60)]),
                 (''output'', [Str ''employment'']),
                 (''filename'', [Str ''val.jsonl''])]\<rparr>"
  from ex_run run have p1: "jsonl d' ''/nb/data/split/val.jsonl'' = Some ?f" by simp
  from none have p2: "jsonl example_disk ''/nb/data/split/val.jsonl'' \<noteq> Some ?f" by simp
  from C6_persisted_fields [OF run raw sub p1 p2]
  have "columns ?f = [''input'', ''output'', ''filename''] \<and>
        (\<forall>r \<in> set (records ?f). field_names r = [''input'', ''output'', ''filename''])"
    by blast
  with p1 run have "\<exists>f. jsonl (snd (curation_notebook id id [1, 0] ''/nb/data'' example_df (1/2) example_disk))
           ''/nb/data/split/val.jsonl'' = Some f \<and>
        columns f = [''input'', ''output'', ''filename''] \<and>
        (\<forall>r \<in> set (records f). field_names r = [''input'', ''output'', ''filename''])"
    by simp
  moreover have "jsonl example_disk submission_ds = Some example_submission"
    "set (columns example_submission) = {''title'', ''question''}"
    by (auto simp: example_disk_def example_submission_def columns_def)
  ultimately show ?thesis using raw none by blast
qed

end
